theory Spec2Isabelle
  imports Main
begin

section \<open>Mirror registry (struct/Constant.ts)\<close>

text \<open>
  The enum \<open>Mirror\<close> and \<open>getFallbackMirrors\<close>. \<open>Object.values(Mirror)\<close> of a string
  enum lists the members in declaration order.
\<close>

datatype Mirror = Catboy | Nerinyan | OsuDirect | Sayobot | Beatconnect | Nekoha

definition mirror_values :: "Mirror list" where
  "mirror_values = [Catboy, Nerinyan, OsuDirect, Sayobot, Beatconnect, Nekoha]"

definition getFallbackMirrors :: "Mirror \<Rightarrow> Mirror list" where
  "getFallbackMirrors current = filter (\<lambda>m. m \<noteq> current) mirror_values"

section \<open>Configuration and collaborators\<close>

text \<open>
  The fields of \<open>Config\<close> that the download manager reads. \<open>cfg_concurrency\<close> is
  \<open>config.concurrency\<close> (the queue has a field of the same name), a whole number here.
\<close>

record Config =
  mirror :: Mirror
  parallel :: bool
  cfg_concurrency :: nat
  skipExisting :: bool

text \<open>
  A response of \<open>Requestor.fetchDownloadCollection\<close>: the status, the two headers the manager
  reads, and the body as the lengths of its chunks (\<open>None\<close> is a null body).
\<close>

record Response =
  status :: nat
  xRateLimitRemaining :: "string option"
  contentDisposition :: "string option"
  body :: "nat list option"

datatype FetchResult = FetchThrows | FetchResponse Response

text \<open>
  \<open>Requestor.checkRateLimitation\<close> returns \<open>number | null\<close>, or its request rejects.
\<close>

datatype CheckResult = CheckThrows | CheckReturns "int option"

text \<open>Everything that can reach the \<open>catch\<close> block of \<open>_downloadFile\<close>, and the one error it emits itself.\<close>

datatype Thrown =
    StatusCode nat
  | BodyIsNull
  | FileTooSmall nat
  | AllMirrorsBanned
  | FileNameExtractionFailed
  | FetchFailed
  | CheckFailed
  | StreamFailed

type_synonym BeatMapSetId = nat

datatype Event =
    Downloaded BeatMapSetId
  | Skipped BeatMapSetId
  | Error BeatMapSetId Thrown
  | Retrying BeatMapSetId
  | Downloading BeatMapSetId
  | RateLimited
  | DailyRateLimited "BeatMapSetId list"
  | Blocked "BeatMapSetId list"
  | Unavailable "BeatMapSetId list"
  | End "BeatMapSetId list"

text \<open>
  The three closures the manager hands to \<open>queue.add\<close>: the task of \<open>bulkDownload\<close>
  (skip check, download, delete on success), the re-submission after a 429
  (\<open>_downloadFile(beatMapSet, options)\<close>, result dropped) and the retry of the \<open>catch\<close> block
  (\<open>remainingMirrors: nextMirrors\<close>, delete on success).
\<close>

datatype Task =
    BulkTask BeatMapSetId
  | RetrySame BeatMapSetId "Mirror list option"
  | RetryNext BeatMapSetId "Mirror list"

text \<open>The locals of one call of \<open>_downloadFile\<close> that are live across its \<open>await\<close>s.\<close>

record Attempt =
  item :: BeatMapSetId
  options :: "Mirror list option"
  currentMirror :: Mirror
  nextMirrors :: "Mirror list"
  isProbeRequest :: bool

text \<open>
  What the platform answers to the synchronous start of an attempt (\<open>existsSync(this.path)\<close>,
  \<open>process.cwd()\<close>) and to the rest of it: the fetch, \<open>Date.now()\<close>, the allowance check,
  whether reading the body or flushing the file rejects (\<open>streamError\<close>, which the \<open>catch\<close>
  block receives), and \<open>decodeURIComponent\<close>, which is a builtin and is taken as a parameter
  (\<open>None\<close> where it throws). A write error that the stream reports while no listener is
  attached ends the process and has no counterpart here, and \<open>unlinkSync\<close>, whose exception
  the code swallows, is taken to remove the file.
\<close>

record BeginEnv =
  dirExists :: bool
  cwd :: string

record RespEnv =
  fetched :: FetchResult
  now :: int
  rateLimitStatus :: CheckResult
  streamError :: bool
  decodeURIComponent :: "string \<Rightarrow> string option"

section \<open>State of the download manager\<close>

text \<open>
  The fields of \<open>DownloadManager\<close>, the part of its \<open>PQueue\<close> it uses (\<open>isPaused\<close>,
  \<open>concurrency\<close>, the tasks not started yet, the attempts waiting for their response), the
  global \<open>collection.beatMapSets\<close> as the list of its keys in insertion order, and the effects:
  emitted events, download requests (mirror and item), allowance checks (with their time),
  pending \<open>setTimeout(() => this.queue.start(), ms)\<close> timers, and the files on disk, a file path
  being the pair that \<open>_path.join(this.path, fileName)\<close> joins.
\<close>

record State =
  path :: string
  downloadedBeatMapSetSize :: nat
  skippedBeatMapSetSize :: nat
  existingBeatmapsetIds :: "nat set option"
  remainingDownloadsLimit :: "int option"
  lastDownloadsLimitCheck :: "int option"
  testRequest :: bool
  bannedMirrors :: "Mirror set"
  isPaused :: bool
  concurrency :: nat
  tasks :: "Task list"
  inflight :: "(Task \<times> Attempt) list"
  beatMapSets :: "BeatMapSetId list"
  events :: "Event list"
  requests :: "(Mirror \<times> BeatMapSetId) list"
  checks :: "int list"
  timers :: "nat list"
  files :: "(string \<times> string) set"

definition emit :: "State \<Rightarrow> Event \<Rightarrow> State" where
  "emit s e = s\<lparr>events := events s @ [e]\<rparr>"

definition queue_add :: "State \<Rightarrow> Task \<Rightarrow> State" where
  "queue_add s t = s\<lparr>tasks := tasks s @ [t]\<rparr>"

definition collection_delete :: "State \<Rightarrow> BeatMapSetId \<Rightarrow> State" where
  "collection_delete s b = s\<lparr>beatMapSets := filter (\<lambda>i. i \<noteq> b) (beatMapSets s)\<rparr>"

text \<open>\<open>getNotDownloadedBeatapSets\<close>: \<open>Array.from(collection.beatMapSets.values())\<close>.\<close>

definition getNotDownloadedBeatapSets :: "State \<Rightarrow> BeatMapSetId list" where
  "getNotDownloadedBeatapSets s = beatMapSets s"

definition getDownloadedBeatMapSetSize :: "State \<Rightarrow> nat" where
  "getDownloadedBeatMapSetSize s = downloadedBeatMapSetSize s"

definition getSkippedBeatMapSetSize :: "State \<Rightarrow> nat" where
  "getSkippedBeatMapSetSize s = skippedBeatMapSetSize s"

text \<open>
  \<open>this.emit("rateLimited")\<close> with the listener that \<open>bulkDownload\<close> registers:
  if the queue is not paused, set \<open>testRequest\<close>, pause, set the concurrency to 1 and
  schedule \<open>queue.start()\<close> in \<open>60e3\<close> ms.
\<close>

definition emit_rateLimited :: "State \<Rightarrow> State" where
  "emit_rateLimited s =
     (let s1 = emit s RateLimited in
      if \<not> isPaused s1
      then s1\<lparr>testRequest := True, isPaused := True, concurrency := 1,
              timers := timers s1 @ [60000]\<rparr>
      else s1)"

section \<open>Builtins on strings\<close>

text \<open>
  The code units that \<open>parseInt\<close> skips and that \<open>\s\<close> matches: the white space and
  line terminator characters of ECMAScript.
\<close>

definition isWhiteSpace :: "nat \<Rightarrow> bool" where
  "isWhiteSpace u =
     (u \<in> set [0x09, 0x0A, 0x0B, 0x0C, 0x0D, 0x20, 0xA0, 0x1680, 0x2028, 0x2029, 0x202F, 0x205F,
                0x3000, 0xFEFF]
      \<or> (0x2000 \<le> u \<and> u \<le> 0x200A))"

text \<open>
  \<open>parseInt(string)\<close> without a radix: leading white space, a sign, an optional \<open>0x\<close>
  prefix, then the longest run of digits; \<open>None\<close> is \<open>NaN\<close>. The argument is a header value,
  which \<open>Headers.get\<close> returns as a byte string: every code unit is below 256 and is a
  \<open>char\<close> here. The value is kept exact; the manager only compares it with 12, and rounding
  to a double does not change that comparison.
\<close>

definition digitOf :: "nat \<Rightarrow> char \<Rightarrow> nat option" where
  "digitOf radix c =
     (let n = (of_char c :: nat);
          v = (if 48 \<le> n \<and> n \<le> 57 then Some (n - 48)
               else if 97 \<le> n \<and> n \<le> 102 then Some (n - 87)
               else if 65 \<le> n \<and> n \<le> 70 then Some (n - 55)
               else None)
      in case v of None \<Rightarrow> None | Some d \<Rightarrow> if d < radix then Some d else None)"

definition parseInt :: "string \<Rightarrow> int option" where
  "parseInt str =
     (let s1 = dropWhile (\<lambda>c. isWhiteSpace (of_char c)) str;
          neg = (case s1 of [] \<Rightarrow> False | c # _ \<Rightarrow> c = CHR ''-'');
          s2 = (case s1 of [] \<Rightarrow> [] | c # r \<Rightarrow> if c = CHR ''-'' \<or> c = CHR ''+'' then r else s1);
          hex = (case s2 of a # b # _ \<Rightarrow> a = CHR ''0'' \<and> (b = CHR ''x'' \<or> b = CHR ''X'') | _ \<Rightarrow> False);
          radix = (if hex then 16 else 10);
          s3 = (if hex then drop 2 s2 else s2);
          ds = List.map_filter (digitOf radix) (takeWhile (\<lambda>c. digitOf radix c \<noteq> None) s3);
          v = int (foldl (\<lambda>a d. a * radix + d) 0 ds)
      in if ds = [] then None else Some (if neg then - v else v))"

text \<open>\<open>replaceForbiddenChars\<close> (util.ts): drop every character of \<open>\\/<>:"|?*\<close>.\<close>

definition replaceForbiddenChars :: "string \<Rightarrow> string" where
  "replaceForbiddenChars str =
     filter (\<lambda>c. c \<notin> set [CHR 0x5C, CHR ''/'', CHR ''<'', CHR ''>'', CHR '':'', CHR 0x22,
                            CHR ''|'', CHR ''?'', CHR ''*'']) str"

text \<open>
  \<open>/filename=([^;]+)/g.exec(s)\<close>: the first place where \<open>filename=\<close> is followed by a
  character other than \<open>;\<close>; the group is the longest run of such characters.
\<close>

fun execFilename :: "string \<Rightarrow> string option" where
  "execFilename [] = None"
| "execFilename (c # cs) =
     (let g = takeWhile (\<lambda>x. x \<noteq> CHR '';'') (drop 9 (c # cs)) in
      if take 9 (c # cs) = ''filename='' \<and> g \<noteq> [] then Some g else execFilename cs)"

text \<open>\<open>_getFilename\<close>; \<open>None\<close> is the thrown \<open>FILE_NAME_EXTRACTION_FAILED\<close>.\<close>

definition getFilename :: "(string \<Rightarrow> string option) \<Rightarrow> Response \<Rightarrow> string option" where
  "getFilename decode response =
     (case contentDisposition response of
        None \<Rightarrow> Some ''Untitled.osz''
      | Some cd \<Rightarrow>
          if cd = [] then Some ''Untitled.osz''
          else (case execFilename cd of
                  None \<Rightarrow> Some ''Untitled.osz''
                | Some g \<Rightarrow> (case decode g of
                                None \<Rightarrow> None
                              | Some d \<Rightarrow> Some (replaceForbiddenChars d))))"

section \<open>\<open>_downloadFile\<close>\<close>

text \<open>
  The mirror chain of an attempt (the local \<open>allMirrors\<close>).
\<close>

definition allMirrors :: "Config \<Rightarrow> State \<Rightarrow> Mirror list option \<Rightarrow> Mirror list" where
  "allMirrors cfg s opts =
     (case opts of
        Some remainingMirrors \<Rightarrow> filter (\<lambda>m. m \<notin> bannedMirrors s) remainingMirrors
      | None \<Rightarrow>
          if mirror cfg \<in> bannedMirrors s
          then filter (\<lambda>m. m \<notin> bannedMirrors s) (getFallbackMirrors (mirror cfg))
          else mirror cfg # filter (\<lambda>m. m \<notin> bannedMirrors s) (getFallbackMirrors (mirror cfg)))"

text \<open>
  The synchronous start of \<open>_downloadFile\<close>, up to the call of
  \<open>Requestor.fetchDownloadCollection\<close>. The result is \<open>None\<close> where the function has returned
  \<open>false\<close> already, and the attempt that now waits for its response otherwise.
\<close>

definition downloadFile_begin ::
  "Config \<Rightarrow> State \<Rightarrow> BeatMapSetId \<Rightarrow> Mirror list option \<Rightarrow> BeginEnv \<Rightarrow> State \<times> Attempt option" where
  "downloadFile_begin cfg s b opts benv =
     (case allMirrors cfg s opts of
        [] \<Rightarrow> (emit s (Error b AllMirrorsBanned), None)
      | cur # nxt \<Rightarrow>
          let probe = testRequest s;
              s1 = (if testRequest s then s\<lparr>testRequest := False\<rparr> else s)
          in if (case remainingDownloadsLimit s1 of None \<Rightarrow> False | Some n \<Rightarrow> n \<le> 0)
             then (emit s1 (DailyRateLimited (getNotDownloadedBeatapSets s1)), None)
             else
               let s2 = emit s1 (Downloading b);
                   s3 = (if \<not> dirExists benv then s2\<lparr>path := cwd benv\<rparr> else s2);
                   s4 = s3\<lparr>requests := requests s3 @ [(cur, b)]\<rparr>
               in (s4, Some \<lparr>item = b, options = opts, currentMirror = cur,
                              nextMirrors = nxt, isProbeRequest = probe\<rparr>))"

text \<open>The \<open>catch\<close> block.\<close>

definition catchBlock :: "State \<Rightarrow> Attempt \<Rightarrow> Thrown \<Rightarrow> State \<times> bool" where
  "catchBlock s att e =
     (let s1 = (if isProbeRequest att then s\<lparr>testRequest := True\<rparr> else s) in
      if nextMirrors att \<noteq> []
      then (queue_add (emit s1 (Retrying (item att))) (RetryNext (item att) (nextMirrors att)), False)
      else (emit s1 (Error (item att) e), False))"

text \<open>The quota header check made on every response of Catboy and OsuDirect.\<close>

definition rateLimitCheck :: "State \<Rightarrow> Mirror \<Rightarrow> Response \<Rightarrow> State" where
  "rateLimitCheck s cur response =
     (if cur \<noteq> Nerinyan \<and> cur \<noteq> Sayobot \<and> cur \<noteq> Beatconnect \<and> cur \<noteq> Nekoha
      then (case xRateLimitRemaining response of
              None \<Rightarrow> s
            | Some x \<Rightarrow>
                if x \<noteq> [] \<and> (case parseInt x of None \<Rightarrow> False | Some v \<Rightarrow> v \<le> 12)
                then (if \<not> isPaused s then emit_rateLimited s else s)
                else s)
      else s)"

text \<open>The end of the 429 branch for Catboy and OsuDirect: signal, re-submit, return \<open>false\<close>.\<close>

definition resubmit429 :: "State \<Rightarrow> Attempt \<Rightarrow> State \<times> bool" where
  "resubmit429 s att =
     (queue_add (if \<not> isPaused s then emit_rateLimited s else s)
        (RetrySame (item att) (options att)), False)"

text \<open>The 429 branch.\<close>

definition on429 :: "State \<Rightarrow> Attempt \<Rightarrow> RespEnv \<Rightarrow> State \<times> bool" where
  "on429 s att env =
     (if currentMirror att = Nerinyan \<or> currentMirror att = Sayobot
         \<or> currentMirror att = Beatconnect \<or> currentMirror att = Nekoha
      then (queue_add s (RetrySame (item att) (options att)), False)
      else if isProbeRequest att
              \<and> (case lastDownloadsLimitCheck s of
                    None \<Rightarrow> True
                  | Some t \<Rightarrow> t = 0 \<or> now env - t > 5000)
      then (let s1 = s\<lparr>lastDownloadsLimitCheck := Some (now env), checks := checks s @ [now env]\<rparr>
            in case rateLimitStatus env of
                 CheckThrows \<Rightarrow> catchBlock s1 att CheckFailed
               | CheckReturns r \<Rightarrow>
                   resubmit429
                     (if r = Some 0
                      then emit s1 (DailyRateLimited (getNotDownloadedBeatapSets s1))
                      else s1\<lparr>remainingDownloadsLimit := r\<rparr>) att)
      else resubmit429 s att)"

text \<open>The 200 branch: restore the concurrency for a probe, write the file, validate its size.\<close>

definition on200 :: "Config \<Rightarrow> State \<Rightarrow> Attempt \<Rightarrow> Response \<Rightarrow> RespEnv \<Rightarrow> State \<times> bool" where
  "on200 cfg s att response env =
     (let s1 = (if isProbeRequest att
                then s\<lparr>concurrency := (if parallel cfg then cfg_concurrency cfg else 1)\<rparr>
                else s)
      in case getFilename (decodeURIComponent env) response of
           None \<Rightarrow> catchBlock s1 att FileNameExtractionFailed
         | Some fileName \<Rightarrow>
             let filePath = (path s1, fileName);
                 s2 = s1\<lparr>files := insert filePath (files s1)\<rparr>
             in case body response of
                  None \<Rightarrow> catchBlock s2 att BodyIsNull
                | Some chunks \<Rightarrow>
                    if streamError env then catchBlock s2 att StreamFailed
                    else
                      let bytesWritten = sum_list chunks in
                      if bytesWritten < 1024
                      then catchBlock (s2\<lparr>files := files s2 - {filePath}\<rparr>) att
                             (FileTooSmall bytesWritten)
                      else
                        (emit (s2\<lparr>downloadedBeatMapSetSize := downloadedBeatMapSetSize s2 + 1,
                                   remainingDownloadsLimit :=
                                     map_option (\<lambda>n. n - 1) (remainingDownloadsLimit s2)\<rparr>)
                           (Downloaded (item att)), True))"

text \<open>
  The rest of \<open>_downloadFile\<close>, from the response of the fetch to the returned boolean.
\<close>

definition downloadFile_respond ::
  "Config \<Rightarrow> State \<Rightarrow> Attempt \<Rightarrow> RespEnv \<Rightarrow> State \<times> bool" where
  "downloadFile_respond cfg s att env =
     (case fetched env of
        FetchThrows \<Rightarrow> catchBlock s att FetchFailed
      | FetchResponse response \<Rightarrow>
          let s1 = rateLimitCheck s (currentMirror att) response in
          if status response = 429 then on429 s1 att env
          else if status response = 403 \<or> status response = 451 then
            (let s2 = (if status response = 403
                       then s1\<lparr>bannedMirrors := insert (currentMirror att) (bannedMirrors s1)\<rparr>
                       else s1)
             in if nextMirrors att \<noteq> [] then catchBlock s2 att (StatusCode (status response))
                else if status response = 403
                then (emit s2 (Blocked (getNotDownloadedBeatapSets s2)), False)
                else (emit s2 (Unavailable (getNotDownloadedBeatapSets s2)), False))
          else if status response \<noteq> 200 then catchBlock s1 att (StatusCode (status response))
          else on200 cfg s1 att response env)"

text \<open>One whole call of \<open>_downloadFile\<close> with nothing else running between its two parts.\<close>

definition downloadFile ::
  "Config \<Rightarrow> State \<Rightarrow> BeatMapSetId \<Rightarrow> Mirror list option \<Rightarrow> BeginEnv \<Rightarrow> RespEnv \<Rightarrow> State \<times> bool" where
  "downloadFile cfg s b opts benv env =
     (case downloadFile_begin cfg s b opts benv of
        (s1, None) \<Rightarrow> (s1, False)
      | (s1, Some att) \<Rightarrow> downloadFile_respond cfg s1 att env)"

section \<open>The queue tasks and the scheduler\<close>

text \<open>
  \<open>PQueue\<close> emits \<open>idle\<close> when a task ends with nothing queued and nothing running; the
  listener of \<open>bulkDownload\<close> emits \<open>end\<close> with the sets that are still in the collection.
\<close>

definition taskDone :: "State \<Rightarrow> State" where
  "taskDone s =
     (if tasks s = [] \<and> inflight s = [] then emit s (End (getNotDownloadedBeatapSets s)) else s)"

text \<open>
  What each closure does with the boolean of \<open>_downloadFile\<close>: the task of \<open>bulkDownload\<close> and
  the retry of the \<open>catch\<close> block delete the set from the collection on success, the
  re-submission after a 429 drops the result.
\<close>

definition finishTask :: "State \<Rightarrow> Task \<Rightarrow> BeatMapSetId \<Rightarrow> bool \<Rightarrow> State" where
  "finishTask s t b success =
     (case t of
        BulkTask _ \<Rightarrow> if success then collection_delete s b else s
      | RetrySame _ _ \<Rightarrow> s
      | RetryNext _ _ \<Rightarrow> if success then collection_delete s b else s)"

definition launch :: "Config \<Rightarrow> State \<Rightarrow> Task \<Rightarrow> BeatMapSetId \<Rightarrow> Mirror list option \<Rightarrow> BeginEnv \<Rightarrow> State" where
  "launch cfg s t b opts benv =
     (case downloadFile_begin cfg s b opts benv of
        (s1, None) \<Rightarrow> taskDone (finishTask s1 t b False)
      | (s1, Some att) \<Rightarrow> s1\<lparr>inflight := inflight s1 @ [(t, att)]\<rparr>)"

text \<open>The queue starts a task: the closure runs up to its first \<open>await\<close> that waits.\<close>

definition startTask :: "Config \<Rightarrow> State \<Rightarrow> Task \<Rightarrow> BeginEnv \<Rightarrow> State" where
  "startTask cfg s t benv =
     (case t of
        BulkTask b \<Rightarrow>
          if (case existingBeatmapsetIds s of None \<Rightarrow> False | Some ids \<Rightarrow> b \<in> ids)
          then taskDone
                 (collection_delete
                    (emit (s\<lparr>skippedBeatMapSetSize := skippedBeatMapSetSize s + 1,
                              downloadedBeatMapSetSize := downloadedBeatMapSetSize s + 1\<rparr>)
                       (Skipped b)) b)
          else launch cfg s t b None benv
      | RetrySame b opts \<Rightarrow> launch cfg s t b opts benv
      | RetryNext b nxt \<Rightarrow> launch cfg s t b (Some nxt) benv)"

text \<open>
  The events of a run: the queue starts its next task (only while it is not paused and fewer
  than \<open>concurrency\<close> tasks run), the response of a waiting attempt arrives, or the oldest
  timer fires and calls \<open>queue.start()\<close>. \<open>start()\<close> does nothing on a queue that is not
  paused; a paused queue it resumes, and if nothing is queued and nothing runs then, the queue
  emits \<open>idle\<close> once more. \<open>None\<close> says that the event cannot happen in this state. The
  interval cap of the queue only delays starts and is not modelled, and a task that the queue
  would start inside a handler (when \<open>queue.add\<close> or the assignment to
  \<open>queue.concurrency\<close> finds room) starts as the next event instead. The handling of one
  response, from the arrival of the status line to the end of \<open>_downloadFile\<close>, is one event:
  the waits inside it (the allowance check, the body) are not interleaved with other events.
\<close>

datatype Action = Start BeginEnv | Respond nat RespEnv | Timeout

definition step :: "Config \<Rightarrow> State \<Rightarrow> Action \<Rightarrow> State option" where
  "step cfg s a =
     (case a of
        Start benv \<Rightarrow>
          if isPaused s \<or> concurrency s \<le> length (inflight s) then None
          else (case tasks s of
                  [] \<Rightarrow> None
                | t # ts \<Rightarrow> Some (startTask cfg (s\<lparr>tasks := ts\<rparr>) t benv))
      | Respond k env \<Rightarrow>
          if k < length (inflight s)
          then (let t = fst (inflight s ! k);
                    att = snd (inflight s ! k);
                    s1 = s\<lparr>inflight := take k (inflight s) @ drop (Suc k) (inflight s)\<rparr>
                in case downloadFile_respond cfg s1 att env of
                     (s2, success) \<Rightarrow> Some (taskDone (finishTask s2 t (item att) success)))
          else None
      | Timeout \<Rightarrow>
          (case timers s of
             [] \<Rightarrow> None
           | _ # ts \<Rightarrow>
               Some (if isPaused s then taskDone (s\<lparr>timers := ts, isPaused := False\<rparr>)
                     else s\<lparr>timers := ts\<rparr>)))"

fun run :: "Config \<Rightarrow> State \<Rightarrow> Action list \<Rightarrow> State option" where
  "run cfg s [] = Some s"
| "run cfg s (a # as) = (case step cfg s a of None \<Rightarrow> None | Some s1 \<Rightarrow> run cfg s1 as)"

section \<open>Construction and \<open>bulkDownload\<close>\<close>

text \<open>
  The fields after the constructor, for a collection and a download directory: the counters
  are zero, no mirror is banned, the queue runs with the configured concurrency.
\<close>

definition init :: "Config \<Rightarrow> int option \<Rightarrow> string \<Rightarrow> BeatMapSetId list \<Rightarrow> State" where
  "init cfg limit dir sets =
     \<lparr>path = dir, downloadedBeatMapSetSize = 0, skippedBeatMapSetSize = 0,
      existingBeatmapsetIds = None, remainingDownloadsLimit = limit,
      lastDownloadsLimitCheck = None, testRequest = False, bannedMirrors = {},
      isPaused = False, concurrency = (if parallel cfg then cfg_concurrency cfg else 1),
      tasks = [], inflight = [], beatMapSets = sets, events = [], requests = [],
      checks = [], timers = [], files = {}\<rparr>"

text \<open>
  The constructor itself: \<open>new PQueue\<close> throws a \<open>TypeError\<close> for a concurrency below 1,
  which \<open>Config\<close> admits (its range is 0 to 10).
\<close>

definition new_DownloadManager ::
  "Config \<Rightarrow> int option \<Rightarrow> string \<Rightarrow> BeatMapSetId list \<Rightarrow> State option" where
  "new_DownloadManager cfg limit dir sets =
     (if 1 \<le> (if parallel cfg then cfg_concurrency cfg else 1)
      then Some (init cfg limit dir sets) else None)"

text \<open>
  The Number that a natural number becomes: itself below \<open>2^53\<close>, and above that the nearest
  multiple of the spacing of the doubles at its size, ties going to the even one; \<open>None\<close> is
  \<open>Infinity\<close>.
\<close>

fun bitLength :: "nat \<Rightarrow> nat" where
  "bitLength n = (if n = 0 then 0 else Suc (bitLength (n div 2)))"

declare bitLength.simps [simp del]

definition toNumber :: "nat \<Rightarrow> nat option" where
  "toNumber n =
     (if n < 2 ^ 53 then Some n
      else let e = bitLength n - 53;
               q = n div 2 ^ e;
               r = n mod 2 ^ e;
               h = 2 ^ (e - 1);
               m = (if h < r \<or> (r = h \<and> odd q) then q + 1 else q) * 2 ^ e
           in if m < 2 ^ 1024 then Some m else None)"

text \<open>
  The identifier of a directory entry, \<open>entry.match(/^(\d+)\s/)\<close> and \<open>parseInt\<close> of the group.
  An entry is a string of UTF-16 code units; \<open>\d\<close> matches the ten ASCII digits. No identifier
  of the collection equals \<open>Infinity\<close>, so an entry that parses to it adds nothing that
  \<open>has\<close> can find.
\<close>

definition isDigit :: "nat \<Rightarrow> bool" where
  "isDigit u = (48 \<le> u \<and> u \<le> 57)"

definition entryId :: "nat list \<Rightarrow> nat option" where
  "entryId entry =
     (let ds = takeWhile isDigit entry in
      if ds \<noteq> [] \<and> (case dropWhile isDigit entry of [] \<Rightarrow> False | u # _ \<Rightarrow> isWhiteSpace u)
      then toNumber (foldl (\<lambda>a u. a * 10 + (u - 48)) 0 ds)
      else None)"

text \<open>
  \<open>bulkDownload\<close>: the scan of the download directory (\<open>dirEntries\<close> is \<open>None\<close> when the path
  does not exist, \<open>Some None\<close> when \<open>readdirSync\<close> throws) and one task per set of the
  collection.
\<close>

definition bulkDownload :: "Config \<Rightarrow> State \<Rightarrow> nat list list option option \<Rightarrow> State" where
  "bulkDownload cfg s dirEntries =
     (let s1 = (if skipExisting cfg
                then (case dirEntries of
                        None \<Rightarrow> s
                      | Some None \<Rightarrow> s\<lparr>existingBeatmapsetIds := None\<rparr>
                      | Some (Some entries) \<Rightarrow>
                          s\<lparr>existingBeatmapsetIds := Some (set (List.map_filter entryId entries))\<rparr>)
                else s)
      in s1\<lparr>tasks := tasks s1 @ map BulkTask (beatMapSets s1)\<rparr>)"

section \<open>An invariant of the allowance checks\<close>


section \<open>Inputs of the worked examples\<close>

definition cfg_catboy :: Config where
  "cfg_catboy = \<lparr>mirror = Catboy, parallel = True, cfg_concurrency = 3, skipExisting = True\<rparr>"

definition cfg_nerinyan :: Config where
  "cfg_nerinyan = \<lparr>mirror = Nerinyan, parallel = True, cfg_concurrency = 3, skipExisting = True\<rparr>"

definition cfg_sequential :: Config where
  "cfg_sequential = \<lparr>mirror = Catboy, parallel = False, cfg_concurrency = 3, skipExisting = True\<rparr>"

definition benv_ok :: BeginEnv where
  "benv_ok = \<lparr>dirExists = True, cwd = ''.''\<rparr>"

text \<open>
  A response with the given status, quota header and body chunks, no content disposition;
  the clock reads \<open>clock\<close> and the allowance check, if it is made, returns \<open>allowance\<close>.
\<close>

definition response_at :: "int \<Rightarrow> int option \<Rightarrow> nat \<Rightarrow> string option \<Rightarrow> nat list \<Rightarrow> RespEnv" where
  "response_at clock allowance st quota chunks =
     \<lparr>fetched = FetchResponse \<lparr>status = st, xRateLimitRemaining = quota,
                                 contentDisposition = None, body = Some chunks\<rparr>,
      now = clock, rateLimitStatus = CheckReturns allowance, streamError = False,
      decodeURIComponent = Some\<rparr>"

definition response :: "nat \<Rightarrow> string option \<Rightarrow> nat list \<Rightarrow> RespEnv" where
  "response st quota chunks = response_at 1000 None st quota chunks"

text \<open>The state after the constructor and \<open>bulkDownload\<close>, with no directory to scan.\<close>

definition start_state :: "Config \<Rightarrow> int option \<Rightarrow> BeatMapSetId list \<Rightarrow> State" where
  "start_state cfg limit sets = bulkDownload cfg (init cfg limit ''Songs'' sets) None"

definition all_banned :: State where
  "all_banned = (init cfg_catboy None ''Songs'' [7])\<lparr>bannedMirrors := set mirror_values\<rparr>"

definition scanned_state :: State where
  "scanned_state =
     bulkDownload cfg_catboy (init cfg_catboy None ''Songs'' [7, 8])
       (Some (Some (map (map of_char) [''7 Artist - Title'', ''notes.txt''])))"

definition first_attempt :: "Mirror \<Rightarrow> BeatMapSetId \<Rightarrow> Attempt" where
  "first_attempt m b =
     \<lparr>item = b, options = None, currentMirror = m,
      nextMirrors = filter (\<lambda>x. x \<noteq> m) mirror_values, isProbeRequest = False\<rparr>"

definition last_attempt :: "Mirror \<Rightarrow> BeatMapSetId \<Rightarrow> Attempt" where
  "last_attempt m b =
     \<lparr>item = b, options = Some [m], currentMirror = m, nextMirrors = [], isProbeRequest = False\<rparr>"

definition waiting_state :: State where
  "waiting_state = the (run cfg_catboy (start_state cfg_catboy None [1, 2]) [Start benv_ok])"

definition ban_state :: State where
  "ban_state = the (run cfg_catboy (start_state cfg_catboy None [1, 2])
                      [Start benv_ok, Respond 0 (response 403 None [])])"

definition catboy_begun :: State where
  "catboy_begun =
     fst (downloadFile_begin cfg_catboy (start_state cfg_catboy None [1, 2]) 1 None benv_ok)"

definition nerinyan_begun :: State where
  "nerinyan_begun =
     fst (downloadFile_begin cfg_nerinyan (start_state cfg_nerinyan None [1]) 1 None benv_ok)"

definition all_banned_exhausted :: State where
  "all_banned_exhausted = all_banned\<lparr>remainingDownloadsLimit := Some 0\<rparr>"

definition ok_response :: RespEnv where
  "ok_response = response 200 None [2000]"

text \<open>
  Three sets with concurrency 3 and Nerinyan preferred: the third set is refused (403) by
  every mirror in turn while the first two wait for Nerinyan; then the first is downloaded
  and the second fails with status 500.
\<close>

definition blocked_run :: "Action list" where
  "blocked_run =
     [Start benv_ok, Start benv_ok, Start benv_ok,
      Respond 2 (response 403 None []),
      Start benv_ok, Respond 2 (response 403 None []),
      Start benv_ok, Respond 2 (response 403 None []),
      Start benv_ok, Respond 2 (response 403 None []),
      Start benv_ok, Respond 2 (response 403 None []),
      Start benv_ok, Respond 2 (response 403 None []),
      Respond 0 ok_response,
      Respond 0 (response 500 None [])]"

text \<open>Five downloads, one at a time, and three more starts.\<close>

definition allowance_run :: "Action list" where
  "allowance_run =
     [Start benv_ok, Respond 0 ok_response, Start benv_ok, Respond 0 ok_response,
      Start benv_ok, Respond 0 ok_response, Start benv_ok, Respond 0 ok_response,
      Start benv_ok, Respond 0 ok_response, Start benv_ok, Start benv_ok, Start benv_ok]"

definition exhausted_state :: State where
  "exhausted_state = start_state cfg_catboy (Some 0) [7]"

text \<open>A set that is answered 429 once and is downloaded by the re-submitted call.\<close>

definition retried_run :: "Action list" where
  "retried_run =
     [Start benv_ok, Respond 0 (response 429 None []), Start benv_ok, Respond 0 ok_response]"













text \<open>
  \<open>blocked_run\<close> up to the last refusal of the third set, when every mirror is banned; then
  Nerinyan refuses the first set (403) and answers 451 for the second, and the two retries
  start.
\<close>

definition stale_run :: "Action list" where
  "stale_run =
     take 14 blocked_run
     @ [Respond 0 (response 403 None []), Start benv_ok,
        Respond 0 (response 451 None []), Start benv_ok]"

text \<open>
  Two sets requested at once from Nerinyan: the second is refused (403), then the first is
  answered 429, and the two queued calls start.
\<close>

definition rebanned_run :: "Action list" where
  "rebanned_run =
     [Start benv_ok, Start benv_ok, Respond 1 (response 403 None []),
      Respond 0 (response 429 None []), Start benv_ok, Start benv_ok]"

definition rebanned_state :: State where
  "rebanned_state =
     the (run cfg_nerinyan (start_state cfg_nerinyan None [1, 2]) (take 4 rebanned_run))"

text \<open>
  Eight sets with concurrency 3: five downloads while up to three attempts wait, then a start
  and the two downloads that were still waiting.
\<close>

definition parallel_allowance_run :: "Action list" where
  "parallel_allowance_run =
     [Start benv_ok, Start benv_ok, Start benv_ok,
      Respond 0 ok_response, Start benv_ok, Respond 0 ok_response, Start benv_ok,
      Respond 0 ok_response, Start benv_ok, Respond 0 ok_response, Start benv_ok,
      Respond 0 ok_response,
      Start benv_ok, Respond 0 ok_response, Respond 0 ok_response]"

text \<open>
  Eight sets with concurrency 3 and allowance 5. The first download carries quota header 5,
  so the fourth set starts as a probe after the pause; its download carries the header too,
  which pauses the queue and leaves the concurrency at 3, so the fifth set starts as a probe
  next to the sixth and the seventh. The sixth set is the fifth download. Then the probe is
  answered 429 and the allowance check reports 50; the seventh set is downloaded, the timer
  fires and the eighth set starts.
\<close>

definition resync_run :: "Action list" where
  "resync_run =
     [Start benv_ok, Start benv_ok, Start benv_ok,
      Respond 0 (response 200 (Some ''5'') [2000]), Respond 0 ok_response,
      Respond 0 ok_response, Timeout,
      Start benv_ok, Respond 0 (response_at 61000 None 200 (Some ''5'') [2000]), Timeout,
      Start benv_ok, Start benv_ok, Start benv_ok, Respond 1 ok_response,
      Respond 0 (response_at 200000 (Some 50) 429 None []), Respond 0 ok_response, Timeout,
      Start benv_ok]"

text \<open>The states right after the fifth download of \<open>parallel_allowance_run\<close> and of \<open>allowance_run\<close>.\<close>

definition parallel_fifth :: State where
  "parallel_fifth =
     the (run cfg_catboy (start_state cfg_catboy (Some 5) [1, 2, 3, 4, 5, 6, 7, 8])
            (take 12 parallel_allowance_run))"

definition sequential_fifth :: State where
  "sequential_fifth =
     the (run cfg_sequential (start_state cfg_sequential (Some 5) [1, 2, 3, 4, 5, 6, 7, 8])
            (take 10 allowance_run))"

text \<open>
  Two sets requested at once with allowance 1: the first is downloaded, then the second is
  answered with the given status, and the call queued for it starts.
\<close>

definition spent_run :: "nat \<Rightarrow> Action list" where
  "spent_run st =
     [Start benv_ok, Start benv_ok, Respond 0 ok_response, Respond 0 (response st None []),
      Start benv_ok]"

section \<open>Evaluation of the model\<close>

lemmas model_defs =
  start_state_def bulkDownload_def init_def step_def startTask_def launch_def finishTask_def
  taskDone_def downloadFile_begin_def downloadFile_respond_def on200_def on429_def
  resubmit429_def rateLimitCheck_def catchBlock_def allMirrors_def getFallbackMirrors_def
  mirror_values_def emit_rateLimited_def emit_def queue_add_def collection_delete_def
  getNotDownloadedBeatapSets_def getFilename_def parseInt_def digitOf_def isWhiteSpace_def
  List.map_filter_simps Let_def cfg_catboy_def cfg_nerinyan_def cfg_sequential_def benv_ok_def
  response_def response_at_def entryId_def isDigit_def toNumber_def

section \<open>What each part of an attempt changes\<close>

lemma begin_Some:
  assumes "downloadFile_begin cfg s0 b opts benv = (s, Some att)"
  shows "allMirrors cfg s0 opts = currentMirror att # nextMirrors att"
    and "item att = b" and "options att = opts" and "isProbeRequest att = testRequest s0"
    and "bannedMirrors s = bannedMirrors s0"
    and "requests s = requests s0 @ [(currentMirror att, b)]"
    and "events s = events s0 @ [Downloading b]"
    and "testRequest s = False"
    and "remainingDownloadsLimit s = remainingDownloadsLimit s0"
    and "tasks s = tasks s0" and "isPaused s = isPaused s0" and "concurrency s = concurrency s0"
  using assms
  by (auto simp: downloadFile_begin_def Let_def emit_def split: list.splits if_splits)

lemma begin_None:
  assumes "downloadFile_begin cfg s0 b opts benv = (s, None)"
  shows "bannedMirrors s = bannedMirrors s0" and "requests s = requests s0"
  using assms
  by (auto simp: downloadFile_begin_def Let_def emit_def split: list.splits if_splits)

lemma begin_request:
  assumes "allMirrors cfg s opts = m # ms"
    and "\<not> (case remainingDownloadsLimit s of None \<Rightarrow> False | Some n \<Rightarrow> n \<le> 0)"
  shows "\<exists>s1. downloadFile_begin cfg s b opts benv
           = (s1, Some \<lparr>item = b, options = opts, currentMirror = m, nextMirrors = ms,
                        isProbeRequest = testRequest s\<rparr>)
         \<and> requests s1 = requests s @ [(m, b)]"
  using assms by (simp add: downloadFile_begin_def Let_def emit_def)

lemma allMirrors_cong:
  "bannedMirrors s = bannedMirrors s' \<Longrightarrow> allMirrors cfg s opts = allMirrors cfg s' opts"
  by (cases opts) (simp_all add: allMirrors_def)

lemma emit_rateLimited_frame:
  "bannedMirrors (emit_rateLimited s) = bannedMirrors s"
  "requests (emit_rateLimited s) = requests s"
  by (simp_all add: emit_rateLimited_def emit_def Let_def)

lemma rateLimitCheck_frame2:
  "bannedMirrors (rateLimitCheck s m r) = bannedMirrors s"
  "requests (rateLimitCheck s m r) = requests s"
  by (simp_all add: rateLimitCheck_def emit_rateLimited_frame split: option.splits)

lemma rateLimitCheck_frame:
  "tasks (rateLimitCheck s m r) = tasks s"
  "beatMapSets (rateLimitCheck s m r) = beatMapSets s"
  "files (rateLimitCheck s m r) = files s"
  "path (rateLimitCheck s m r) = path s"
  "checks (rateLimitCheck s m r) = checks s"
  "inflight (rateLimitCheck s m r) = inflight s"
  "downloadedBeatMapSetSize (rateLimitCheck s m r) = downloadedBeatMapSetSize s"
  "skippedBeatMapSetSize (rateLimitCheck s m r) = skippedBeatMapSetSize s"
  "remainingDownloadsLimit (rateLimitCheck s m r) = remainingDownloadsLimit s"
  "lastDownloadsLimitCheck (rateLimitCheck s m r) = lastDownloadsLimitCheck s"
  "existingBeatmapsetIds (rateLimitCheck s m r) = existingBeatmapsetIds s"
  by (simp_all add: rateLimitCheck_def emit_rateLimited_def emit_def Let_def split: option.splits)

lemma catchBlock_frame2:
  "bannedMirrors (fst (catchBlock s att e)) = bannedMirrors s"
  "requests (fst (catchBlock s att e)) = requests s"
  by (simp_all add: catchBlock_def emit_def queue_add_def Let_def)

lemma catchBlock_simps:
  "snd (catchBlock s att e) = False"
  "tasks (fst (catchBlock s att e))
     = tasks s @ (if nextMirrors att \<noteq> [] then [RetryNext (item att) (nextMirrors att)] else [])"
  "events (fst (catchBlock s att e))
     = events s @ [if nextMirrors att \<noteq> [] then Retrying (item att) else Error (item att) e]"
  "testRequest (fst (catchBlock s att e)) = (isProbeRequest att \<or> testRequest s)"
  "beatMapSets (fst (catchBlock s att e)) = beatMapSets s"
  "files (fst (catchBlock s att e)) = files s"
  "isPaused (fst (catchBlock s att e)) = isPaused s"
  "concurrency (fst (catchBlock s att e)) = concurrency s"
  "timers (fst (catchBlock s att e)) = timers s"
  "checks (fst (catchBlock s att e)) = checks s"
  "inflight (fst (catchBlock s att e)) = inflight s"
  "downloadedBeatMapSetSize (fst (catchBlock s att e)) = downloadedBeatMapSetSize s"
  "remainingDownloadsLimit (fst (catchBlock s att e)) = remainingDownloadsLimit s"
  "lastDownloadsLimitCheck (fst (catchBlock s att e)) = lastDownloadsLimitCheck s"
  by (simp_all add: catchBlock_def emit_def queue_add_def Let_def)

lemma on429_frame2:
  "bannedMirrors (fst (on429 s att env)) = bannedMirrors s"
  "requests (fst (on429 s att env)) = requests s"
  by (simp_all add: on429_def resubmit429_def catchBlock_frame2 emit_rateLimited_frame emit_def
      queue_add_def Let_def split: CheckResult.splits)

lemma on200_frame2:
  "bannedMirrors (fst (on200 cfg s att r env)) = bannedMirrors s"
  "requests (fst (on200 cfg s att r env)) = requests s"
  by (simp_all add: on200_def catchBlock_frame2 emit_def Let_def split: option.splits)

lemma respond_banned:
  "bannedMirrors (fst (downloadFile_respond cfg s att env)) =
     (case fetched env of
        FetchThrows \<Rightarrow> bannedMirrors s
      | FetchResponse r \<Rightarrow>
          if status r = 403 then insert (currentMirror att) (bannedMirrors s)
          else bannedMirrors s)"
  by (simp add: downloadFile_respond_def catchBlock_frame2 on429_frame2 on200_frame2
      rateLimitCheck_frame2 emit_def Let_def split: FetchResult.splits)

lemma respond_requests:
  "requests (fst (downloadFile_respond cfg s att env)) = requests s"
  by (simp add: downloadFile_respond_def catchBlock_frame2 on429_frame2 on200_frame2
      rateLimitCheck_frame2 emit_def Let_def split: FetchResult.splits)

lemma finishTask_frame2:
  "bannedMirrors (finishTask s t b ok) = bannedMirrors s"
  "requests (finishTask s t b ok) = requests s"
  by (simp_all add: finishTask_def collection_delete_def split: Task.splits)

lemma taskDone_frame2:
  "bannedMirrors (taskDone s) = bannedMirrors s"
  "requests (taskDone s) = requests s"
  by (simp_all add: taskDone_def emit_def)

lemma taskDone_frame:
  "checks (taskDone s) = checks s"
  "lastDownloadsLimitCheck (taskDone s) = lastDownloadsLimitCheck s"
  "isPaused (taskDone s) = isPaused s"
  "concurrency (taskDone s) = concurrency s"
  "timers (taskDone s) = timers s"
  "tasks (taskDone s) = tasks s"
  "inflight (taskDone s) = inflight s"
  "beatMapSets (taskDone s) = beatMapSets s"
  "testRequest (taskDone s) = testRequest s"
  "remainingDownloadsLimit (taskDone s) = remainingDownloadsLimit s"
  "downloadedBeatMapSetSize (taskDone s) = downloadedBeatMapSetSize s"
  "skippedBeatMapSetSize (taskDone s) = skippedBeatMapSetSize s"
  by (simp_all add: taskDone_def emit_def)

lemma finishTask_frame:
  "checks (finishTask s t b ok) = checks s"
  "lastDownloadsLimitCheck (finishTask s t b ok) = lastDownloadsLimitCheck s"
  "isPaused (finishTask s t b ok) = isPaused s"
  "concurrency (finishTask s t b ok) = concurrency s"
  "timers (finishTask s t b ok) = timers s"
  "tasks (finishTask s t b ok) = tasks s"
  "inflight (finishTask s t b ok) = inflight s"
  "events (finishTask s t b ok) = events s"
  "testRequest (finishTask s t b ok) = testRequest s"
  "remainingDownloadsLimit (finishTask s t b ok) = remainingDownloadsLimit s"
  "downloadedBeatMapSetSize (finishTask s t b ok) = downloadedBeatMapSetSize s"
  "skippedBeatMapSetSize (finishTask s t b ok) = skippedBeatMapSetSize s"
  by (cases t; simp add: finishTask_def collection_delete_def)+

lemma respond_success:
  assumes "fetched env = FetchResponse r" and "status r = 200"
    and "getFilename (decodeURIComponent env) r = Some fileName"
    and "body r = Some chunks" and "\<not> streamError env" and "1024 \<le> sum_list chunks"
  shows "downloadFile_respond cfg s att env =
     (emit ((if isProbeRequest att
             then (rateLimitCheck s (currentMirror att) r)
                    \<lparr>concurrency := (if parallel cfg then cfg_concurrency cfg else 1)\<rparr>
             else rateLimitCheck s (currentMirror att) r)
            \<lparr>files := insert (path s, fileName) (files s),
              downloadedBeatMapSetSize := downloadedBeatMapSetSize s + 1,
              remainingDownloadsLimit := map_option (\<lambda>n. n - 1) (remainingDownloadsLimit s)\<rparr>)
        (Downloaded (item att)), True)"
  using assms
  by (auto simp: downloadFile_respond_def on200_def Let_def rateLimitCheck_frame)

lemma begin_exhausted:
  assumes "remainingDownloadsLimit s = Some n" and "n \<le> 0"
  shows "downloadFile_begin cfg s b opts benv =
     (if allMirrors cfg s opts = [] then emit s (Error b AllMirrorsBanned)
      else emit (s\<lparr>testRequest := False\<rparr>) (DailyRateLimited (beatMapSets s)), None)"
  using assms
  by (cases "allMirrors cfg s opts")
     (auto simp: downloadFile_begin_def Let_def emit_def getNotDownloadedBeatapSets_def
        intro!: State.equality)

lemma begin_frame:
  "checks (fst (downloadFile_begin cfg s b opts benv)) = checks s"
  "lastDownloadsLimitCheck (fst (downloadFile_begin cfg s b opts benv)) = lastDownloadsLimitCheck s"
  "isPaused (fst (downloadFile_begin cfg s b opts benv)) = isPaused s"
  "concurrency (fst (downloadFile_begin cfg s b opts benv)) = concurrency s"
  "timers (fst (downloadFile_begin cfg s b opts benv)) = timers s"
  "tasks (fst (downloadFile_begin cfg s b opts benv)) = tasks s"
  "inflight (fst (downloadFile_begin cfg s b opts benv)) = inflight s"
  "beatMapSets (fst (downloadFile_begin cfg s b opts benv)) = beatMapSets s"
  by (cases "allMirrors cfg s opts"; simp add: downloadFile_begin_def Let_def emit_def)+




section \<open>The mirror chain\<close>

lemma distinct_mirror_values: "distinct mirror_values"
  by (simp add: mirror_values_def)

lemma allMirrors_not_banned: "m \<in> set (allMirrors cfg s opts) \<Longrightarrow> m \<notin> bannedMirrors s"
  by (auto simp: allMirrors_def split: option.splits if_splits)

lemma begin_empty_chain:
  "allMirrors cfg s opts = [] \<Longrightarrow>
     downloadFile_begin cfg s b opts benv = (emit s (Error b AllMirrorsBanned), None)"
  by (simp add: downloadFile_begin_def)

text \<open>
  C1. The chain of a first attempt (no \<open>remainingMirrors\<close>) is the registry without the
  banned mirrors when the preferred mirror is banned, and otherwise the preferred mirror
  followed by the other mirrors of the registry that are not banned, in declaration order.
  No chain, of a first attempt or of a retry, contains a banned mirror; the chain of a first
  attempt has no duplicates; and with an empty chain \<open>_downloadFile\<close> emits the error
  "All mirrors are banned", returns \<open>false\<close> and requests nothing.
\<close>

theorem C1_mirror_chain:
  "allMirrors cfg s None =
     (if mirror cfg \<in> bannedMirrors s
      then filter (\<lambda>m. m \<notin> bannedMirrors s) mirror_values
      else mirror cfg # filter (\<lambda>m. m \<noteq> mirror cfg \<and> m \<notin> bannedMirrors s) mirror_values)
   \<and> set (allMirrors cfg s opts) \<inter> bannedMirrors s = {}
   \<and> distinct (allMirrors cfg s None)
   \<and> (allMirrors cfg s opts = [] \<longrightarrow>
        downloadFile cfg s b opts benv env = (emit s (Error b AllMirrorsBanned), False)
        \<and> requests (fst (downloadFile cfg s b opts benv env)) = requests s
        \<and> events (fst (downloadFile cfg s b opts benv env)) = events s @ [Error b AllMirrorsBanned])"
proof (intro conjI impI)
  show "allMirrors cfg s None =
     (if mirror cfg \<in> bannedMirrors s
      then filter (\<lambda>m. m \<notin> bannedMirrors s) mirror_values
      else mirror cfg # filter (\<lambda>m. m \<noteq> mirror cfg \<and> m \<notin> bannedMirrors s) mirror_values)"
  proof (cases "mirror cfg \<in> bannedMirrors s")
    case True
    have "filter (\<lambda>m. m \<notin> bannedMirrors s) (filter (\<lambda>m. m \<noteq> mirror cfg) mirror_values)
          = filter (\<lambda>m. m \<notin> bannedMirrors s) mirror_values"
      unfolding filter_filter using True by (intro filter_cong) auto
    with True show ?thesis by (simp add: allMirrors_def getFallbackMirrors_def)
  next
    case False
    then show ?thesis by (simp add: allMirrors_def getFallbackMirrors_def conj_commute)
  qed
next
  show "set (allMirrors cfg s opts) \<inter> bannedMirrors s = {}"
    using allMirrors_not_banned by blast
next
  show "distinct (allMirrors cfg s None)"
    using distinct_mirror_values by (simp add: allMirrors_def getFallbackMirrors_def)
next
  assume e: "allMirrors cfg s opts = []"
  then show d: "downloadFile cfg s b opts benv env = (emit s (Error b AllMirrorsBanned), False)"
    by (simp add: downloadFile_def begin_empty_chain)
  show "requests (fst (downloadFile cfg s b opts benv env)) = requests s"
    by (simp add: d emit_def)
  show "events (fst (downloadFile cfg s b opts benv env)) = events s @ [Error b AllMirrorsBanned]"
    by (simp add: d emit_def)
qed

theorem C1_mirror_chain_witness:
  "allMirrors cfg_catboy all_banned None = []
   \<and> downloadFile cfg_catboy all_banned 7 None benv_ok (response 200 None [2000])
       = (emit all_banned (Error 7 AllMirrorsBanned), False)
   \<and> requests (fst (downloadFile cfg_catboy all_banned 7 None benv_ok (response 200 None [2000]))) = []"
proof -
  have h: "allMirrors cfg_catboy all_banned None = []"
    by (simp add: allMirrors_def all_banned_def cfg_catboy_def getFallbackMirrors_def
        mirror_values_def)
  have r: "requests all_banned = []"
    by (simp add: all_banned_def init_def)
  from C1_mirror_chain [of cfg_catboy all_banned None 7 benv_ok "response 200 None [2000]"] h r
  show ?thesis by metis
qed

section \<open>Sets that are already on disk\<close>

lemma scanned_state_simps:
  "existingBeatmapsetIds scanned_state = Some {7}"
  "tasks scanned_state = [BulkTask 7, BulkTask 8]"
  "isPaused scanned_state = False" "inflight scanned_state = []" "concurrency scanned_state = 3"
  "events scanned_state = []" "beatMapSets scanned_state = [7, 8]"
  "requests scanned_state = []" "downloadedBeatMapSetSize scanned_state = 0"
  "skippedBeatMapSetSize scanned_state = 0"
  by (simp_all add: scanned_state_def model_defs)

text \<open>
  C10. When the queue starts the task of a set whose identifier is in the scanned set of
  existing identifiers, the task emits \<open>skipped\<close> (and the queue, if it is now idle, \<open>end\<close>),
  deletes the set from the collection, requests nothing and leaves no attempt waiting, and
  both the skipped counter and the downloaded counter grow by one, so that
  \<open>getDownloadedBeatMapSetSize\<close> counts the skipped set.
\<close>

theorem C10_skip_existing:
  assumes "existingBeatmapsetIds s = Some ids" and "b \<in> ids"
    and "tasks s = BulkTask b # ts" and "\<not> isPaused s" and "length (inflight s) < concurrency s"
  shows "\<exists>s'. step cfg s (Start benv) = Some s'
    \<and> events s' = events s @ Skipped b #
         (if ts = [] \<and> inflight s = [] then [End (filter (\<lambda>i. i \<noteq> b) (beatMapSets s))] else [])
    \<and> beatMapSets s' = filter (\<lambda>i. i \<noteq> b) (beatMapSets s)
    \<and> requests s' = requests s \<and> inflight s' = inflight s \<and> tasks s' = ts
    \<and> skippedBeatMapSetSize s' = skippedBeatMapSetSize s + 1
    \<and> downloadedBeatMapSetSize s' = downloadedBeatMapSetSize s + 1
    \<and> getDownloadedBeatMapSetSize s' = getDownloadedBeatMapSetSize s + 1
    \<and> getSkippedBeatMapSetSize s' = getSkippedBeatMapSetSize s + 1"
  using assms
  by (simp add: step_def startTask_def taskDone_def emit_def collection_delete_def
      getNotDownloadedBeatapSets_def getDownloadedBeatMapSetSize_def getSkippedBeatMapSetSize_def)

theorem C10_skip_existing_witness:
  "map_option (\<lambda>s. (events s, beatMapSets s, requests s, getDownloadedBeatMapSetSize s,
                      getSkippedBeatMapSetSize s))
     (step cfg_catboy scanned_state (Start benv_ok))
   = Some ([Skipped 7], [8], [], 1, 1)"
proof -
  from C10_skip_existing [of scanned_state "{7}" 7 "[BulkTask 8]" cfg_catboy benv_ok]
  obtain s' where "step cfg_catboy scanned_state (Start benv_ok) = Some s'"
    and "events s' = [Skipped 7]" and "beatMapSets s' = [8]" and "requests s' = []"
    and "getDownloadedBeatMapSetSize s' = 1" and "getSkippedBeatMapSetSize s' = 1"
    by (auto simp: scanned_state_simps getDownloadedBeatMapSetSize_def
        getSkippedBeatMapSetSize_def)
  then show ?thesis by simp
qed

section \<open>Banned mirrors\<close>

lemma launch_frame2:
  "bannedMirrors (launch cfg s t b opts benv) = bannedMirrors s"
  "\<exists>rs. requests (launch cfg s t b opts benv) = requests s @ rs
        \<and> (\<forall>q\<in>set rs. fst q \<notin> bannedMirrors s)"
proof -
  obtain s1 r where b: "downloadFile_begin cfg s b opts benv = (s1, r)"
    by (cases "downloadFile_begin cfg s b opts benv")
  show "bannedMirrors (launch cfg s t b opts benv) = bannedMirrors s"
    using b begin_Some(5) [of cfg s b opts benv s1] begin_None(1) [of cfg s b opts benv s1]
    by (cases r) (simp_all add: launch_def taskDone_frame2 finishTask_frame2)
  show "\<exists>rs. requests (launch cfg s t b opts benv) = requests s @ rs
        \<and> (\<forall>q\<in>set rs. fst q \<notin> bannedMirrors s)"
  proof (cases r)
    case None
    with b begin_None(2) [of cfg s b opts benv s1] show ?thesis
      by (simp add: launch_def taskDone_frame2 finishTask_frame2)
  next
    case (Some att)
    with b have c: "allMirrors cfg s opts = currentMirror att # nextMirrors att"
      and q: "requests s1 = requests s @ [(currentMirror att, b)]"
      using begin_Some(1,6) [of cfg s b opts benv s1 att] by simp_all
    from c have "currentMirror att \<notin> bannedMirrors s"
      using allMirrors_not_banned [of "currentMirror att" cfg s opts] by simp
    with b Some q show ?thesis by (simp add: launch_def)
  qed
qed

lemma startTask_frame2:
  "bannedMirrors (startTask cfg s t benv) = bannedMirrors s"
  "\<exists>rs. requests (startTask cfg s t benv) = requests s @ rs
        \<and> (\<forall>q\<in>set rs. fst q \<notin> bannedMirrors s)"
  using launch_frame2
  by (auto simp: startTask_def taskDone_frame2 collection_delete_def emit_def split: Task.splits)

lemma step_banned:
  assumes "step cfg s a = Some s'"
  shows "bannedMirrors s \<subseteq> bannedMirrors s'"
    and "\<exists>rs. requests s' = requests s @ rs \<and> (\<forall>q\<in>set rs. fst q \<notin> bannedMirrors s)"
proof -
  show "bannedMirrors s \<subseteq> bannedMirrors s'"
  proof (cases a)
    case (Start benv)
    with assms show ?thesis
      by (auto simp: step_def startTask_frame2 split: if_splits list.splits)
  next
    case (Respond k env)
    with assms show ?thesis
      by (auto simp: step_def Let_def taskDone_frame2 finishTask_frame2 respond_banned
          split: if_splits prod.splits FetchResult.splits
          dest!: arg_cong [where f = "\<lambda>x. bannedMirrors (fst x)"])
  next
    case Timeout
    with assms show ?thesis
      by (auto simp: step_def taskDone_frame2 split: list.splits if_splits)
  qed
  show "\<exists>rs. requests s' = requests s @ rs \<and> (\<forall>q\<in>set rs. fst q \<notin> bannedMirrors s)"
  proof (cases a)
    case (Start benv)
    with assms obtain t ts where "tasks s = t # ts" and "s' = startTask cfg (s\<lparr>tasks := ts\<rparr>) t benv"
      by (auto simp: step_def split: if_splits list.splits)
    with startTask_frame2(2) [of cfg "s\<lparr>tasks := ts\<rparr>" t benv] show ?thesis by simp
  next
    case (Respond k env)
    with assms have "requests s' = requests s"
      by (auto simp: step_def Let_def taskDone_frame2 finishTask_frame2 respond_requests
          split: if_splits prod.splits dest!: arg_cong [where f = "\<lambda>x. requests (fst x)"])
    then show ?thesis by simp
  next
    case Timeout
    with assms show ?thesis
      by (auto simp: step_def taskDone_frame2 split: list.splits if_splits)
  qed
qed

lemma run_banned:
  "run cfg s acts = Some s' \<Longrightarrow>
     bannedMirrors s \<subseteq> bannedMirrors s'
     \<and> (\<exists>rs. requests s' = requests s @ rs \<and> (\<forall>q\<in>set rs. fst q \<notin> bannedMirrors s))"
proof (induction acts arbitrary: s)
  case Nil
  then show ?case by simp
next
  case (Cons a acts)
  then obtain s1 where s1: "step cfg s a = Some s1" and r: "run cfg s1 acts = Some s'"
    by (auto split: option.splits)
  from step_banned [OF s1] obtain rs1 where
    m1: "bannedMirrors s \<subseteq> bannedMirrors s1" and q1: "requests s1 = requests s @ rs1"
    and n1: "\<forall>q\<in>set rs1. fst q \<notin> bannedMirrors s" by blast
  from Cons.IH [OF r] obtain rs2 where
    m2: "bannedMirrors s1 \<subseteq> bannedMirrors s'" and q2: "requests s' = requests s1 @ rs2"
    and n2: "\<forall>q\<in>set rs2. fst q \<notin> bannedMirrors s1" by blast
  have "requests s' = requests s @ (rs1 @ rs2)" using q1 q2 by simp
  moreover have "\<forall>q\<in>set (rs1 @ rs2). fst q \<notin> bannedMirrors s" using n1 n2 m1 by auto
  ultimately show ?case using m1 m2 by blast
qed

lemma retry_chain:
  assumes "allMirrors cfg s0 opts = m # ms" and "distinct (allMirrors cfg s0 opts)"
    and "bannedMirrors s' \<subseteq> insert m (bannedMirrors s0)"
  shows "allMirrors cfg s' (Some ms) = ms"
proof -
  have "x \<notin> bannedMirrors s'" if "x \<in> set ms" for x
  proof -
    from that assms(1) have "x \<in> set (allMirrors cfg s0 opts)" by simp
    then have "x \<notin> bannedMirrors s0" by (rule allMirrors_not_banned)
    moreover from that assms(1,2) have "x \<noteq> m" by auto
    ultimately show ?thesis using assms(3) by auto
  qed
  then show ?thesis by (simp add: allMirrors_def)
qed

lemma respond_403:
  assumes "fetched env = FetchResponse r" and "status r = 403"
  shows "downloadFile_respond cfg s att env =
     (let s2 = (rateLimitCheck s (currentMirror att) r)
                \<lparr>bannedMirrors := insert (currentMirror att) (bannedMirrors s)\<rparr>
      in if nextMirrors att \<noteq> [] then catchBlock s2 att (StatusCode 403)
         else (emit s2 (Blocked (beatMapSets s)), False))"
  using assms
  by (simp add: downloadFile_respond_def Let_def rateLimitCheck_frame rateLimitCheck_frame2
      getNotDownloadedBeatapSets_def)

lemma respond_451:
  assumes "fetched env = FetchResponse r" and "status r = 451"
  shows "downloadFile_respond cfg s att env =
     (let s2 = rateLimitCheck s (currentMirror att) r
      in if nextMirrors att \<noteq> [] then catchBlock s2 att (StatusCode 451)
         else (emit s2 (Unavailable (beatMapSets s)), False))"
  using assms
  by (simp add: downloadFile_respond_def Let_def rateLimitCheck_frame
      getNotDownloadedBeatapSets_def)

lemma waiting_state_simps:
  "bannedMirrors waiting_state = {}" "tasks waiting_state = [BulkTask 2]"
  "events waiting_state = [Downloading 1]" "beatMapSets waiting_state = [1, 2]"
  "inflight waiting_state = [(BulkTask 1, first_attempt Catboy 1)]"
  "requests waiting_state = [(Catboy, 1)]"
  by (simp_all add: waiting_state_def first_attempt_def model_defs)

lemma ban_state_simps:
  "run cfg_catboy waiting_state [Respond 0 (response 403 None [])] = Some ban_state"
  "bannedMirrors ban_state = {Catboy}" "requests ban_state = [(Catboy, 1)]"
  by (simp_all add: ban_state_def waiting_state_def model_defs)

lemma catboy_begun_simps:
  "downloadFile_begin cfg_catboy (start_state cfg_catboy None [1, 2]) 1 None benv_ok
     = (catboy_begun, Some (first_attempt Catboy 1))"
  "distinct (allMirrors cfg_catboy (start_state cfg_catboy None [1, 2]) None)"
  by (simp_all add: catboy_begun_def first_attempt_def model_defs)

lemma ban_state_run:
  "run cfg_catboy ban_state [Start benv_ok, Start benv_ok]
     = Some (the (run cfg_catboy ban_state [Start benv_ok, Start benv_ok]))"
  "requests (the (run cfg_catboy ban_state [Start benv_ok, Start benv_ok]))
     = [(Catboy, 1), (Nerinyan, 2), (Nerinyan, 1)]"
  by (simp_all add: ban_state_def model_defs)

lemma start_retry_request:
  assumes "filter (\<lambda>x. x \<notin> bannedMirrors s) nxt = m # ms"
    and "\<not> (case remainingDownloadsLimit s of None \<Rightarrow> False | Some n \<Rightarrow> n \<le> 0)"
  shows "requests (startTask cfg s (RetryNext b nxt) benv) = requests s @ [(m, b)]"
    and "inflight (startTask cfg s (RetryNext b nxt) benv)
           = inflight s
             @ [(RetryNext b nxt,
                 \<lparr>item = b, options = Some nxt, currentMirror = m, nextMirrors = ms,
                  isProbeRequest = testRequest s\<rparr>)]"
proof -
  from assms(1) have "allMirrors cfg s (Some nxt) = m # ms" by (simp add: allMirrors_def)
  from begin_request [OF this assms(2), of b benv] obtain s1 where
    b: "downloadFile_begin cfg s b (Some nxt) benv
          = (s1, Some \<lparr>item = b, options = Some nxt, currentMirror = m, nextMirrors = ms,
                       isProbeRequest = testRequest s\<rparr>)"
    and q: "requests s1 = requests s @ [(m, b)]"
    by blast
  from begin_frame(7) [of cfg s b "Some nxt" benv] b have i: "inflight s1 = inflight s"
    by simp
  show "requests (startTask cfg s (RetryNext b nxt) benv) = requests s @ [(m, b)]"
    by (simp add: startTask_def launch_def b q)
  show "inflight (startTask cfg s (RetryNext b nxt) benv)
           = inflight s
             @ [(RetryNext b nxt,
                 \<lparr>item = b, options = Some nxt, currentMirror = m, nextMirrors = ms,
                  isProbeRequest = testRequest s\<rparr>)]"
    by (simp add: startTask_def launch_def b i)
qed

lemma start_retry_exhausted:
  assumes "filter (\<lambda>x. x \<notin> bannedMirrors s) nxt = m # ms"
    and "remainingDownloadsLimit s = Some n" and "n \<le> 0"
  shows "requests (startTask cfg s (RetryNext b nxt) benv) = requests s"
    and "inflight (startTask cfg s (RetryNext b nxt) benv) = inflight s"
    and "events (startTask cfg s (RetryNext b nxt) benv)
           = events s @ DailyRateLimited (beatMapSets s)
             # (if tasks s = [] \<and> inflight s = [] then [End (beatMapSets s)] else [])"
proof -
  from assms(1) have "allMirrors cfg s (Some nxt) \<noteq> []" by (simp add: allMirrors_def)
  with begin_exhausted [OF assms(2,3), of cfg b "Some nxt" benv]
  have e: "startTask cfg s (RetryNext b nxt) benv
      = taskDone (emit (s\<lparr>testRequest := False\<rparr>) (DailyRateLimited (beatMapSets s)))"
    by (simp add: startTask_def launch_def finishTask_def)
  show "requests (startTask cfg s (RetryNext b nxt) benv) = requests s"
    and "inflight (startTask cfg s (RetryNext b nxt) benv) = inflight s"
    and "events (startTask cfg s (RetryNext b nxt) benv)
           = events s @ DailyRateLimited (beatMapSets s)
             # (if tasks s = [] \<and> inflight s = [] then [End (beatMapSets s)] else [])"
    by (simp_all add: e taskDone_def emit_def getNotDownloadedBeatapSets_def)
qed

lemma start_retry_empty:
  assumes "filter (\<lambda>x. x \<notin> bannedMirrors s) nxt = []"
  shows "requests (startTask cfg s (RetryNext b nxt) benv) = requests s"
    and "inflight (startTask cfg s (RetryNext b nxt) benv) = inflight s"
    and "beatMapSets (startTask cfg s (RetryNext b nxt) benv) = beatMapSets s"
    and "events (startTask cfg s (RetryNext b nxt) benv)
           = events s @ Error b AllMirrorsBanned
             # (if tasks s = [] \<and> inflight s = [] then [End (beatMapSets s)] else [])"
proof -
  from assms have "allMirrors cfg s (Some nxt) = []" by (simp add: allMirrors_def)
  from begin_empty_chain [OF this, of b benv]
  have e: "startTask cfg s (RetryNext b nxt) benv = taskDone (emit s (Error b AllMirrorsBanned))"
    by (simp add: startTask_def launch_def finishTask_def)
  show "requests (startTask cfg s (RetryNext b nxt) benv) = requests s"
    and "inflight (startTask cfg s (RetryNext b nxt) benv) = inflight s"
    and "beatMapSets (startTask cfg s (RetryNext b nxt) benv) = beatMapSets s"
    and "events (startTask cfg s (RetryNext b nxt) benv)
           = events s @ Error b AllMirrorsBanned
             # (if tasks s = [] \<and> inflight s = [] then [End (beatMapSets s)] else [])"
    by (simp_all add: e taskDone_def emit_def getNotDownloadedBeatapSets_def)
qed

text \<open>
  C5, as stated, fails where the mirrors that followed \<open>M\<close> in the chain of the attempt have
  all been banned while the attempt waited for its response: \<open>_downloadFile\<close> decides between
  the retry and \<open>blocked\<close> or \<open>unavailable\<close> on \<open>nextMirrors\<close>, the list it computed when
  the attempt began. Three sets are requested at once from Nerinyan; the third is refused by
  every mirror in turn, which bans them all (the last refusal emits \<open>blocked\<close>; the manager
  does not stop its queue there, that is up to the listeners of its caller). Then Nerinyan
  answers 403 for the first set and 451 for the second. No mirror remains, but neither
  \<open>blocked\<close> nor \<open>unavailable\<close> is emitted: each set emits \<open>retrying\<close>, and its retry ends
  with the error "All mirrors are banned" without a request. Nor does a retry that has
  mirrors left always request one: in \<open>spent_run\<close> the allowance of 1 is used up by the first
  set while the second waits; the second is then refused by Catboy (403 or 451), and its
  retry, with five mirrors that are not banned, emits \<open>dailyRateLimited\<close> and requests
  nothing.
\<close>

theorem C5_counterexample:
  "map_option (map snd \<circ> inflight)
     (run cfg_nerinyan (start_state cfg_nerinyan None [1, 2, 3]) (take 14 blocked_run))
     = Some [first_attempt Nerinyan 1, first_attempt Nerinyan 2]
   \<and> nextMirrors (first_attempt Nerinyan 1) = [Catboy, OsuDirect, Sayobot, Beatconnect, Nekoha]
   \<and> map_option bannedMirrors
        (run cfg_nerinyan (start_state cfg_nerinyan None [1, 2, 3]) (take 14 blocked_run))
       = Some (set mirror_values)
   \<and> map_option (drop 13 \<circ> events)
        (run cfg_nerinyan (start_state cfg_nerinyan None [1, 2, 3]) (take 14 blocked_run))
       = Some [Blocked [1, 2, 3]]
   \<and> map_option (length \<circ> requests)
        (run cfg_nerinyan (start_state cfg_nerinyan None [1, 2, 3]) (take 14 blocked_run))
       = Some 8
   \<and> map_option (drop 14 \<circ> events)
        (run cfg_nerinyan (start_state cfg_nerinyan None [1, 2, 3]) stale_run)
       = Some [Retrying 1, Error 1 AllMirrorsBanned, Retrying 2, Error 2 AllMirrorsBanned,
               End [1, 2, 3]]
   \<and> map_option (drop 8 \<circ> requests)
        (run cfg_nerinyan (start_state cfg_nerinyan None [1, 2, 3]) stale_run)
       = Some []
   \<and> map_option tasks
        (run cfg_catboy (start_state cfg_catboy (Some 1) [1, 2]) (take 4 (spent_run 403)))
       = Some [RetryNext 2 [Nerinyan, OsuDirect, Sayobot, Beatconnect, Nekoha]]
   \<and> map_option bannedMirrors
        (run cfg_catboy (start_state cfg_catboy (Some 1) [1, 2]) (take 4 (spent_run 403)))
       = Some {Catboy}
   \<and> map_option events
        (run cfg_catboy (start_state cfg_catboy (Some 1) [1, 2]) (spent_run 403))
       = Some [Downloading 1, Downloading 2, Downloaded 1, Retrying 2, DailyRateLimited [2],
               End [2]]
   \<and> map_option requests
        (run cfg_catboy (start_state cfg_catboy (Some 1) [1, 2]) (spent_run 403))
       = Some [(Catboy, 1), (Catboy, 2)]
   \<and> map_option events
        (run cfg_catboy (start_state cfg_catboy (Some 1) [1, 2]) (spent_run 451))
       = Some [Downloading 1, Downloading 2, Downloaded 1, Retrying 2, DailyRateLimited [2],
               End [2]]
   \<and> map_option requests
        (run cfg_catboy (start_state cfg_catboy (Some 1) [1, 2]) (spent_run 451))
       = Some [(Catboy, 1), (Catboy, 2)]"
  by (auto simp: stale_run_def blocked_run_def spent_run_def ok_response_def first_attempt_def
      model_defs)

text \<open>
  C5, amended. A response 403 from the mirror of an attempt adds that mirror to
  \<open>bannedMirrors\<close>, a response 451 adds nothing. In both cases the attempt returns \<open>false\<close>.
  If mirrors followed the current one in the chain that the attempt computed when it began,
  it emits \<open>retrying\<close> and queues the retry with exactly those mirrors; otherwise it emits
  \<open>blocked\<close> (403) or \<open>unavailable\<close> (451) with the sets still in the collection and queues
  nothing. The queued retry, when the queue starts it, requests the first mirror of its list
  that is not banned by then, keeping the rest of them for its own retry; if all of them
  are banned by then it emits the error "All mirrors are banned" and requests nothing, and
  if one is left but the tracked allowance is at or below 0 it emits \<open>dailyRateLimited\<close>
  and requests nothing. When nothing ran in between, its chain is the list itself. No event
  of a run removes a mirror from \<open>bannedMirrors\<close>, and no request that a run issues after a
  mirror was banned goes to that mirror. (The mirror of an attempt and the mirrors after it
  are the chain that was resolved when the attempt began.)
\<close>

theorem C5_forbidden_and_unavailable:
  assumes "fetched env = FetchResponse r"
  shows "(let s' = fst (downloadFile_respond cfg s att env);
              ok = snd (downloadFile_respond cfg s att env);
              s1 = rateLimitCheck s (currentMirror att) r
          in (status r = 403 \<longrightarrow>
                bannedMirrors s' = insert (currentMirror att) (bannedMirrors s) \<and> \<not> ok
                \<and> tasks s' = tasks s @ (if nextMirrors att \<noteq> []
                                         then [RetryNext (item att) (nextMirrors att)] else [])
                \<and> events s' = events s1 @ [if nextMirrors att \<noteq> [] then Retrying (item att)
                                             else Blocked (beatMapSets s)])
           \<and> (status r = 451 \<longrightarrow>
                bannedMirrors s' = bannedMirrors s \<and> \<not> ok
                \<and> tasks s' = tasks s @ (if nextMirrors att \<noteq> []
                                         then [RetryNext (item att) (nextMirrors att)] else [])
                \<and> events s' = events s1 @ [if nextMirrors att \<noteq> [] then Retrying (item att)
                                             else Unavailable (beatMapSets s)])
           \<and> ((status r = 403 \<or> status r = 451)
                \<and> downloadFile_begin cfg sbeg b opts benv = (s, Some att)
                \<and> distinct (allMirrors cfg sbeg opts) \<longrightarrow>
                allMirrors cfg s' (Some (nextMirrors att)) = nextMirrors att))
    \<and> (M \<in> bannedMirrors s \<and> run cfg s acts = Some sfin \<longrightarrow>
          M \<in> bannedMirrors sfin
          \<and> (\<forall>q\<in>set (drop (length (requests s)) (requests sfin)). fst q \<noteq> M))
    \<and> (filter (\<lambda>x. x \<notin> bannedMirrors s) nxt = m # ms
        \<and> \<not> (case remainingDownloadsLimit s of None \<Rightarrow> False | Some n \<Rightarrow> n \<le> 0) \<longrightarrow>
          requests (startTask cfg s (RetryNext b nxt) benv) = requests s @ [(m, b)]
          \<and> inflight (startTask cfg s (RetryNext b nxt) benv)
              = inflight s
                @ [(RetryNext b nxt,
                    \<lparr>item = b, options = Some nxt, currentMirror = m, nextMirrors = ms,
                     isProbeRequest = testRequest s\<rparr>)])
    \<and> (filter (\<lambda>x. x \<notin> bannedMirrors s) nxt = [] \<longrightarrow>
          requests (startTask cfg s (RetryNext b nxt) benv) = requests s
          \<and> inflight (startTask cfg s (RetryNext b nxt) benv) = inflight s
          \<and> beatMapSets (startTask cfg s (RetryNext b nxt) benv) = beatMapSets s
          \<and> events (startTask cfg s (RetryNext b nxt) benv)
              = events s @ Error b AllMirrorsBanned
                # (if tasks s = [] \<and> inflight s = [] then [End (beatMapSets s)] else []))
    \<and> (filter (\<lambda>x. x \<notin> bannedMirrors s) nxt = m # ms
        \<and> remainingDownloadsLimit s = Some n \<and> n \<le> 0 \<longrightarrow>
          requests (startTask cfg s (RetryNext b nxt) benv) = requests s
          \<and> inflight (startTask cfg s (RetryNext b nxt) benv) = inflight s
          \<and> events (startTask cfg s (RetryNext b nxt) benv)
              = events s @ DailyRateLimited (beatMapSets s)
                # (if tasks s = [] \<and> inflight s = [] then [End (beatMapSets s)] else []))
    \<and> (downloadFile_begin cfg sbeg b opts benv = (sb, Some att) \<longrightarrow>
          item att = b
          \<and> allMirrors cfg sbeg opts = currentMirror att # nextMirrors att)"
proof (intro conjI)
  have a: "status r = 403 \<Longrightarrow>
      bannedMirrors (fst (downloadFile_respond cfg s att env))
        = insert (currentMirror att) (bannedMirrors s)
      \<and> \<not> snd (downloadFile_respond cfg s att env)
      \<and> tasks (fst (downloadFile_respond cfg s att env))
          = tasks s @ (if nextMirrors att \<noteq> [] then [RetryNext (item att) (nextMirrors att)] else [])
      \<and> events (fst (downloadFile_respond cfg s att env))
          = events (rateLimitCheck s (currentMirror att) r)
            @ [if nextMirrors att \<noteq> [] then Retrying (item att) else Blocked (beatMapSets s)]"
    by (simp add: respond_403 [OF assms] Let_def catchBlock_simps catchBlock_frame2
        rateLimitCheck_frame emit_def)
  have b: "status r = 451 \<Longrightarrow>
      bannedMirrors (fst (downloadFile_respond cfg s att env)) = bannedMirrors s
      \<and> \<not> snd (downloadFile_respond cfg s att env)
      \<and> tasks (fst (downloadFile_respond cfg s att env))
          = tasks s @ (if nextMirrors att \<noteq> [] then [RetryNext (item att) (nextMirrors att)] else [])
      \<and> events (fst (downloadFile_respond cfg s att env))
          = events (rateLimitCheck s (currentMirror att) r)
            @ [if nextMirrors att \<noteq> [] then Retrying (item att) else Unavailable (beatMapSets s)]"
    by (simp add: respond_451 [OF assms] Let_def catchBlock_simps catchBlock_frame2
        rateLimitCheck_frame rateLimitCheck_frame2 emit_def)
  have c: "allMirrors cfg (fst (downloadFile_respond cfg s att env)) (Some (nextMirrors att))
             = nextMirrors att"
    if "status r = 403 \<or> status r = 451"
      and bg: "downloadFile_begin cfg sbeg b opts benv = (s, Some att)"
      and d: "distinct (allMirrors cfg sbeg opts)"
  proof (rule retry_chain [OF begin_Some(1) [OF bg] d])
    show "bannedMirrors (fst (downloadFile_respond cfg s att env))
            \<subseteq> insert (currentMirror att) (bannedMirrors sbeg)"
      using begin_Some(5) [OF bg] by (auto simp: respond_banned assms)
  qed
  show "let s' = fst (downloadFile_respond cfg s att env);
            ok = snd (downloadFile_respond cfg s att env);
            s1 = rateLimitCheck s (currentMirror att) r
        in (status r = 403 \<longrightarrow>
              bannedMirrors s' = insert (currentMirror att) (bannedMirrors s) \<and> \<not> ok
              \<and> tasks s' = tasks s @ (if nextMirrors att \<noteq> []
                                       then [RetryNext (item att) (nextMirrors att)] else [])
              \<and> events s' = events s1 @ [if nextMirrors att \<noteq> [] then Retrying (item att)
                                           else Blocked (beatMapSets s)])
         \<and> (status r = 451 \<longrightarrow>
              bannedMirrors s' = bannedMirrors s \<and> \<not> ok
              \<and> tasks s' = tasks s @ (if nextMirrors att \<noteq> []
                                       then [RetryNext (item att) (nextMirrors att)] else [])
              \<and> events s' = events s1 @ [if nextMirrors att \<noteq> [] then Retrying (item att)
                                           else Unavailable (beatMapSets s)])
         \<and> ((status r = 403 \<or> status r = 451)
              \<and> downloadFile_begin cfg sbeg b opts benv = (s, Some att)
              \<and> distinct (allMirrors cfg sbeg opts) \<longrightarrow>
              allMirrors cfg s' (Some (nextMirrors att)) = nextMirrors att)"
    unfolding Let_def using a b c by blast
next
  show "M \<in> bannedMirrors s \<and> run cfg s acts = Some sfin \<longrightarrow>
          M \<in> bannedMirrors sfin
          \<and> (\<forall>q\<in>set (drop (length (requests s)) (requests sfin)). fst q \<noteq> M)"
  proof (intro impI, elim conjE)
    assume m: "M \<in> bannedMirrors s" and r: "run cfg s acts = Some sfin"
    from run_banned [OF r] obtain rs where "bannedMirrors s \<subseteq> bannedMirrors sfin"
      and "requests sfin = requests s @ rs" and "\<forall>q\<in>set rs. fst q \<notin> bannedMirrors s"
      by blast
    with m show "M \<in> bannedMirrors sfin
          \<and> (\<forall>q\<in>set (drop (length (requests s)) (requests sfin)). fst q \<noteq> M)"
      by auto
  qed
next
  show "filter (\<lambda>x. x \<notin> bannedMirrors s) nxt = m # ms
        \<and> \<not> (case remainingDownloadsLimit s of None \<Rightarrow> False | Some n \<Rightarrow> n \<le> 0) \<longrightarrow>
          requests (startTask cfg s (RetryNext b nxt) benv) = requests s @ [(m, b)]
          \<and> inflight (startTask cfg s (RetryNext b nxt) benv)
              = inflight s
                @ [(RetryNext b nxt,
                    \<lparr>item = b, options = Some nxt, currentMirror = m, nextMirrors = ms,
                     isProbeRequest = testRequest s\<rparr>)]"
    using start_retry_request [of s nxt m ms cfg b benv] by blast
next
  show "filter (\<lambda>x. x \<notin> bannedMirrors s) nxt = [] \<longrightarrow>
          requests (startTask cfg s (RetryNext b nxt) benv) = requests s
          \<and> inflight (startTask cfg s (RetryNext b nxt) benv) = inflight s
          \<and> beatMapSets (startTask cfg s (RetryNext b nxt) benv) = beatMapSets s
          \<and> events (startTask cfg s (RetryNext b nxt) benv)
              = events s @ Error b AllMirrorsBanned
                # (if tasks s = [] \<and> inflight s = [] then [End (beatMapSets s)] else [])"
    using start_retry_empty [of s nxt cfg b benv] by blast
next
  show "filter (\<lambda>x. x \<notin> bannedMirrors s) nxt = m # ms
        \<and> remainingDownloadsLimit s = Some n \<and> n \<le> 0 \<longrightarrow>
          requests (startTask cfg s (RetryNext b nxt) benv) = requests s
          \<and> inflight (startTask cfg s (RetryNext b nxt) benv) = inflight s
          \<and> events (startTask cfg s (RetryNext b nxt) benv)
              = events s @ DailyRateLimited (beatMapSets s)
                # (if tasks s = [] \<and> inflight s = [] then [End (beatMapSets s)] else [])"
    using start_retry_exhausted [of s nxt m ms n cfg b benv] by blast
next
  show "downloadFile_begin cfg sbeg b opts benv = (sb, Some att) \<longrightarrow>
          item att = b
          \<and> allMirrors cfg sbeg opts = currentMirror att # nextMirrors att"
    using begin_Some(1,2) [of cfg sbeg b opts benv sb att] by blast
qed

theorem C5_forbidden_and_unavailable_witness:
  "bannedMirrors (fst (downloadFile_respond cfg_catboy waiting_state (first_attempt Catboy 1)
                         (response 403 None []))) = {Catboy}
   \<and> tasks (fst (downloadFile_respond cfg_catboy waiting_state (first_attempt Catboy 1)
                    (response 403 None [])))
       = [BulkTask 2, RetryNext 1 [Nerinyan, OsuDirect, Sayobot, Beatconnect, Nekoha]]
   \<and> bannedMirrors (fst (downloadFile_respond cfg_catboy waiting_state (last_attempt Nekoha 1)
                           (response 451 None []))) = {}
   \<and> events (fst (downloadFile_respond cfg_catboy waiting_state (last_attempt Nekoha 1)
                     (response 451 None [])))
       = [Downloading 1, Unavailable [1, 2]]
   \<and> allMirrors cfg_catboy
        (fst (downloadFile_respond cfg_catboy catboy_begun (first_attempt Catboy 1)
                (response 403 None [])))
        (Some (nextMirrors (first_attempt Catboy 1)))
       = [Nerinyan, OsuDirect, Sayobot, Beatconnect, Nekoha]
   \<and> Catboy \<in> bannedMirrors (the (run cfg_catboy ban_state [Start benv_ok, Start benv_ok]))
   \<and> Catboy \<notin> fst ` set (drop (length (requests ban_state))
                            (requests (the (run cfg_catboy ban_state [Start benv_ok, Start benv_ok]))))
   \<and> requests (startTask cfg_catboy ban_state
                  (RetryNext 1 [Catboy, Nerinyan, OsuDirect]) benv_ok)
       = [(Catboy, 1), (Nerinyan, 1)]
   \<and> map (currentMirror \<circ> snd)
        (inflight (startTask cfg_catboy ban_state
                     (RetryNext 1 [Catboy, Nerinyan, OsuDirect]) benv_ok))
       = [Nerinyan]
   \<and> map (nextMirrors \<circ> snd)
        (inflight (startTask cfg_catboy ban_state
                     (RetryNext 1 [Catboy, Nerinyan, OsuDirect]) benv_ok))
       = [[OsuDirect]]
   \<and> events (startTask cfg_catboy all_banned (RetryNext 7 [Nerinyan, OsuDirect]) benv_ok)
       = [Error 7 AllMirrorsBanned, End [7]]
   \<and> requests (startTask cfg_catboy all_banned (RetryNext 7 [Nerinyan, OsuDirect]) benv_ok)
       = []
   \<and> events (startTask cfg_catboy exhausted_state (RetryNext 7 [Nerinyan, OsuDirect]) benv_ok)
       = [DailyRateLimited [7]]
   \<and> requests (startTask cfg_catboy exhausted_state (RetryNext 7 [Nerinyan, OsuDirect]) benv_ok)
       = []
   \<and> allMirrors cfg_catboy (start_state cfg_catboy None [1, 2]) None
       = [Catboy, Nerinyan, OsuDirect, Sayobot, Beatconnect, Nekoha]"
proof -
  let ?r403 = "\<lparr>status = 403, xRateLimitRemaining = None, contentDisposition = None,
                body = Some []\<rparr>"
  have f403: "fetched (response 403 None []) = FetchResponse ?r403"
    and f451: "fetched (response 451 None [])
      = FetchResponse \<lparr>status = 451, xRateLimitRemaining = None, contentDisposition = None,
                       body = Some []\<rparr>"
    by (simp_all add: response_def response_at_def)
  note a = C5_forbidden_and_unavailable [OF f403, where cfg = cfg_catboy
      and s = waiting_state and att = "first_attempt Catboy 1"]
  note b = C5_forbidden_and_unavailable [OF f451, where cfg = cfg_catboy
      and s = waiting_state and att = "last_attempt Nekoha 1"]
  note c = C5_forbidden_and_unavailable [OF f403, where cfg = cfg_catboy
      and s = ban_state and M = Catboy and acts = "[Start benv_ok, Start benv_ok]"
      and sfin = "the (run cfg_catboy ban_state [Start benv_ok, Start benv_ok])"
      and nxt = "[Catboy, Nerinyan, OsuDirect]" and m = Nerinyan and ms = "[OsuDirect]"
      and b = 1 and benv = benv_ok]
  note d = C5_forbidden_and_unavailable [OF f403, where cfg = cfg_catboy
      and s = catboy_begun and att = "first_attempt Catboy 1"
      and sbeg = "start_state cfg_catboy None [1, 2]" and b = 1 and opts = None
      and benv = benv_ok, THEN conjunct1, unfolded Let_def, THEN conjunct2, THEN conjunct2,
      rule_format]
  have "Catboy \<in> bannedMirrors ban_state" by (simp add: ban_state_simps)
  with c ban_state_run(1)
  have r: "Catboy \<in> bannedMirrors (the (run cfg_catboy ban_state [Start benv_ok, Start benv_ok]))
      \<and> (\<forall>q\<in>set (drop (length (requests ban_state))
                    (requests (the (run cfg_catboy ban_state [Start benv_ok, Start benv_ok])))).
            fst q \<noteq> Catboy)"
    by blast
  have "filter (\<lambda>x. x \<notin> bannedMirrors ban_state) [Catboy, Nerinyan, OsuDirect]
          = Nerinyan # [OsuDirect]
        \<and> \<not> (case remainingDownloadsLimit ban_state of None \<Rightarrow> False | Some n \<Rightarrow> n \<le> 0)"
    by (simp add: ban_state_def waiting_state_def model_defs)
  with c have "requests (startTask cfg_catboy ban_state
                  (RetryNext 1 [Catboy, Nerinyan, OsuDirect]) benv_ok)
       = requests ban_state @ [(Nerinyan, 1)]
     \<and> inflight (startTask cfg_catboy ban_state
                    (RetryNext 1 [Catboy, Nerinyan, OsuDirect]) benv_ok)
       = inflight ban_state
         @ [(RetryNext 1 [Catboy, Nerinyan, OsuDirect],
             \<lparr>item = 1, options = Some [Catboy, Nerinyan, OsuDirect], currentMirror = Nerinyan,
              nextMirrors = [OsuDirect], isProbeRequest = testRequest ban_state\<rparr>)]"
    by blast
  moreover have "inflight ban_state = []"
    by (simp add: ban_state_def model_defs)
  ultimately have q: "requests (startTask cfg_catboy ban_state
                  (RetryNext 1 [Catboy, Nerinyan, OsuDirect]) benv_ok)
       = [(Catboy, 1), (Nerinyan, 1)]
   \<and> map (currentMirror \<circ> snd)
        (inflight (startTask cfg_catboy ban_state
                     (RetryNext 1 [Catboy, Nerinyan, OsuDirect]) benv_ok))
       = [Nerinyan]
   \<and> map (nextMirrors \<circ> snd)
        (inflight (startTask cfg_catboy ban_state
                     (RetryNext 1 [Catboy, Nerinyan, OsuDirect]) benv_ok))
       = [[OsuDirect]]"
    by (simp add: ban_state_simps)
  note e = C5_forbidden_and_unavailable [OF f403, where cfg = cfg_catboy and s = all_banned
      and nxt = "[Nerinyan, OsuDirect]" and b = 7 and benv = benv_ok,
      THEN conjunct2, THEN conjunct2, THEN conjunct2, THEN conjunct1, rule_format]
  have "filter (\<lambda>x. x \<notin> bannedMirrors all_banned) [Nerinyan, OsuDirect] = []"
    by (simp add: all_banned_def mirror_values_def)
  from e [OF this]
  have x: "events (startTask cfg_catboy all_banned (RetryNext 7 [Nerinyan, OsuDirect]) benv_ok)
       = [Error 7 AllMirrorsBanned, End [7]]
   \<and> requests (startTask cfg_catboy all_banned (RetryNext 7 [Nerinyan, OsuDirect]) benv_ok)
       = []"
    by (simp add: all_banned_def init_def)
  have "status ?r403 = 403 \<or> status ?r403 = 451" by simp
  with d catboy_begun_simps
  have "allMirrors cfg_catboy
        (fst (downloadFile_respond cfg_catboy catboy_begun (first_attempt Catboy 1)
                (response 403 None [])))
        (Some (nextMirrors (first_attempt Catboy 1)))
       = nextMirrors (first_attempt Catboy 1)"
    by blast
  then have n: "allMirrors cfg_catboy
        (fst (downloadFile_respond cfg_catboy catboy_begun (first_attempt Catboy 1)
                (response 403 None [])))
        (Some (nextMirrors (first_attempt Catboy 1)))
       = [Nerinyan, OsuDirect, Sayobot, Beatconnect, Nekoha]"
    by (simp add: first_attempt_def mirror_values_def)
  note g = C5_forbidden_and_unavailable [OF f403, where cfg = cfg_catboy
      and s = exhausted_state and nxt = "[Nerinyan, OsuDirect]" and m = Nerinyan
      and ms = "[OsuDirect]" and n = 0 and b = 7 and benv = benv_ok,
      THEN conjunct2, THEN conjunct2, THEN conjunct2, THEN conjunct2, THEN conjunct1,
      rule_format]
  note bg = C5_forbidden_and_unavailable [OF f403, THEN conjunct2, THEN conjunct2,
      THEN conjunct2, THEN conjunct2, THEN conjunct2, rule_format, OF catboy_begun_simps(1)]
  have z: "allMirrors cfg_catboy (start_state cfg_catboy None [1, 2]) None
       = [Catboy, Nerinyan, OsuDirect, Sayobot, Beatconnect, Nekoha]"
    using bg by (simp add: first_attempt_def mirror_values_def)
  have "filter (\<lambda>x. x \<notin> bannedMirrors exhausted_state) [Nerinyan, OsuDirect]
          = Nerinyan # [OsuDirect]
        \<and> remainingDownloadsLimit exhausted_state = Some 0 \<and> (0 :: int) \<le> 0"
    by (simp add: exhausted_state_def model_defs)
  from g [OF this]
  have y: "events (startTask cfg_catboy exhausted_state (RetryNext 7 [Nerinyan, OsuDirect])
                     benv_ok)
       = [DailyRateLimited [7]]
   \<and> requests (startTask cfg_catboy exhausted_state (RetryNext 7 [Nerinyan, OsuDirect])
                  benv_ok)
       = []"
    by (simp add: exhausted_state_def model_defs)
  from a have "bannedMirrors (fst (downloadFile_respond cfg_catboy waiting_state
                  (first_attempt Catboy 1) (response 403 None []))) = {Catboy}
     \<and> tasks (fst (downloadFile_respond cfg_catboy waiting_state (first_attempt Catboy 1)
                    (response 403 None [])))
       = [BulkTask 2, RetryNext 1 [Nerinyan, OsuDirect, Sayobot, Beatconnect, Nekoha]]"
    by (simp add: Let_def waiting_state_simps first_attempt_def mirror_values_def)
  moreover from b have "bannedMirrors (fst (downloadFile_respond cfg_catboy waiting_state
                  (last_attempt Nekoha 1) (response 451 None []))) = {}
     \<and> events (fst (downloadFile_respond cfg_catboy waiting_state (last_attempt Nekoha 1)
                     (response 451 None [])))
       = [Downloading 1, Unavailable [1, 2]]"
    by (simp add: Let_def waiting_state_simps last_attempt_def rateLimitCheck_def)
  ultimately show ?thesis using r n q x y z by auto
qed

section \<open>Status 429 from a mirror without rate limit\<close>

lemma nerinyan_begun_simps:
  "downloadFile_begin cfg_nerinyan (start_state cfg_nerinyan None [1]) 1 None benv_ok
     = (nerinyan_begun, Some (first_attempt Nerinyan 1))"
  "isPaused nerinyan_begun = False" "concurrency nerinyan_begun = 3"
  "events nerinyan_begun = [Downloading 1]" "tasks nerinyan_begun = [BulkTask 1]"
  "timers nerinyan_begun = []" "bannedMirrors nerinyan_begun = {}"
  by (simp_all add: nerinyan_begun_def first_attempt_def model_defs)

text \<open>
  The chain of a call is its list of candidates (the remaining mirrors it was given, or the
  preferred mirror and its fallbacks) without the banned mirrors; resolved again later, with
  more mirrors banned, it is the earlier chain without the mirrors banned since.
\<close>

lemma allMirrors_filter:
  "allMirrors cfg s opts =
     filter (\<lambda>m. m \<notin> bannedMirrors s)
       (case opts of Some l \<Rightarrow> l | None \<Rightarrow> mirror cfg # getFallbackMirrors (mirror cfg))"
  by (cases opts) (simp_all add: allMirrors_def)

lemma allMirrors_later:
  assumes "bannedMirrors s0 \<subseteq> bannedMirrors s2"
  shows "allMirrors cfg s2 opts = filter (\<lambda>m. m \<notin> bannedMirrors s2) (allMirrors cfg s0 opts)"
  unfolding allMirrors_filter filter_filter using assms by (intro filter_cong) auto

text \<open>An attempt that the queue has started, and the chain it resolved.\<close>

lemma started_attempt:
  assumes "step cfg spre (Start benv) = Some spost"
    and "inflight spost = inflight spre @ [(t, att)]"
  shows "allMirrors cfg spre (options att) = currentMirror att # nextMirrors att"
    and "bannedMirrors spost = bannedMirrors spre"
proof -
  from assms(1) obtain t' ts where ts: "tasks spre = t' # ts"
    and sp: "spost = startTask cfg (spre\<lparr>tasks := ts\<rparr>) t' benv"
    by (auto simp: step_def split: if_splits list.splits)
  let ?s0 = "spre\<lparr>tasks := ts\<rparr>"
  show "bannedMirrors spost = bannedMirrors spre"
    by (simp add: sp startTask_frame2)
  have go: "allMirrors cfg spre (options att) = currentMirror att # nextMirrors att"
    if l: "spost = launch cfg ?s0 t' b opts benv" for b opts
  proof (cases "downloadFile_begin cfg ?s0 b opts benv")
    case (Pair s1 r)
    show ?thesis
    proof (cases r)
      case None
      with Pair l begin_frame(7) [of cfg ?s0 b opts benv] have "inflight spost = inflight spre"
        by (simp add: launch_def taskDone_frame finishTask_frame)
      with assms(2) show ?thesis by simp
    next
      case (Some a)
      with Pair l begin_frame(7) [of cfg ?s0 b opts benv]
      have "inflight spost = inflight spre @ [(t', a)]"
        by (simp add: launch_def)
      with assms(2) have a: "a = att" by simp
      from Pair Some a have b: "downloadFile_begin cfg ?s0 b opts benv = (s1, Some att)"
        by simp
      have "allMirrors cfg ?s0 (options att) = allMirrors cfg spre (options att)"
        by (rule allMirrors_cong) simp
      with begin_Some(1,3) [OF b] show ?thesis by simp
    qed
  qed
  show "allMirrors cfg spre (options att) = currentMirror att # nextMirrors att"
  proof (cases t')
    case (BulkTask b)
    show ?thesis
    proof (cases "case existingBeatmapsetIds ?s0 of None \<Rightarrow> False | Some ids \<Rightarrow> b \<in> ids")
      case True
      with BulkTask sp have "inflight spost = inflight spre"
        by (simp add: startTask_def taskDone_frame collection_delete_def emit_def)
      with assms(2) show ?thesis by simp
    next
      case False
      with BulkTask sp go [of b None] show ?thesis by (simp add: startTask_def)
    qed
  next
    case (RetrySame b opts)
    with sp go [of b opts] show ?thesis by (simp add: startTask_def)
  next
    case (RetryNext b nxt)
    with sp go [of b "Some nxt"] show ?thesis by (simp add: startTask_def)
  qed
qed

lemma start_resubmitted_request:
  assumes "allMirrors cfg s opts = m # ms"
    and "\<not> (case remainingDownloadsLimit s of None \<Rightarrow> False | Some n \<Rightarrow> n \<le> 0)"
  shows "requests (startTask cfg s (RetrySame b opts) benv) = requests s @ [(m, b)]"
    and "inflight (startTask cfg s (RetrySame b opts) benv)
           = inflight s
             @ [(RetrySame b opts,
                 \<lparr>item = b, options = opts, currentMirror = m, nextMirrors = ms,
                  isProbeRequest = testRequest s\<rparr>)]"
proof -
  from begin_request [OF assms, of b benv] obtain s1 where
    b: "downloadFile_begin cfg s b opts benv
          = (s1, Some \<lparr>item = b, options = opts, currentMirror = m, nextMirrors = ms,
                       isProbeRequest = testRequest s\<rparr>)"
    and q: "requests s1 = requests s @ [(m, b)]"
    by blast
  from begin_frame(7) [of cfg s b opts benv] b have i: "inflight s1 = inflight s"
    by simp
  show "requests (startTask cfg s (RetrySame b opts) benv) = requests s @ [(m, b)]"
    by (simp add: startTask_def launch_def b q)
  show "inflight (startTask cfg s (RetrySame b opts) benv)
           = inflight s
             @ [(RetrySame b opts,
                 \<lparr>item = b, options = opts, currentMirror = m, nextMirrors = ms,
                  isProbeRequest = testRequest s\<rparr>)]"
    by (simp add: startTask_def launch_def b i)
qed

lemma start_resubmitted_empty:
  assumes "allMirrors cfg s opts = []"
  shows "requests (startTask cfg s (RetrySame b opts) benv) = requests s"
    and "inflight (startTask cfg s (RetrySame b opts) benv) = inflight s"
    and "events (startTask cfg s (RetrySame b opts) benv)
           = events s @ Error b AllMirrorsBanned
             # (if tasks s = [] \<and> inflight s = [] then [End (beatMapSets s)] else [])"
proof -
  from begin_empty_chain [OF assms, of b benv]
  have e: "startTask cfg s (RetrySame b opts) benv = taskDone (emit s (Error b AllMirrorsBanned))"
    by (simp add: startTask_def launch_def finishTask_def)
  show "requests (startTask cfg s (RetrySame b opts) benv) = requests s"
    and "inflight (startTask cfg s (RetrySame b opts) benv) = inflight s"
    and "events (startTask cfg s (RetrySame b opts) benv)
           = events s @ Error b AllMirrorsBanned
             # (if tasks s = [] \<and> inflight s = [] then [End (beatMapSets s)] else [])"
    by (simp_all add: e taskDone_def emit_def getNotDownloadedBeatapSets_def)
qed

lemma start_resubmitted_exhausted:
  assumes "allMirrors cfg s opts = m # ms"
    and "remainingDownloadsLimit s = Some n" and "n \<le> 0"
  shows "requests (startTask cfg s (RetrySame b opts) benv) = requests s"
    and "inflight (startTask cfg s (RetrySame b opts) benv) = inflight s"
    and "events (startTask cfg s (RetrySame b opts) benv)
           = events s @ DailyRateLimited (beatMapSets s)
             # (if tasks s = [] \<and> inflight s = [] then [End (beatMapSets s)] else [])"
proof -
  from assms(1) begin_exhausted [OF assms(2,3), of cfg b opts benv]
  have e: "startTask cfg s (RetrySame b opts) benv
      = taskDone (emit (s\<lparr>testRequest := False\<rparr>) (DailyRateLimited (beatMapSets s)))"
    by (simp add: startTask_def launch_def finishTask_def)
  show "requests (startTask cfg s (RetrySame b opts) benv) = requests s"
    and "inflight (startTask cfg s (RetrySame b opts) benv) = inflight s"
    and "events (startTask cfg s (RetrySame b opts) benv)
           = events s @ DailyRateLimited (beatMapSets s)
             # (if tasks s = [] \<and> inflight s = [] then [End (beatMapSets s)] else [])"
    by (simp_all add: e taskDone_def emit_def getNotDownloadedBeatapSets_def)
qed

text \<open>
  C8, as stated, fails in its last part: the re-submitted call does not go to the same
  mirror when that mirror has been banned since the answered attempt began. The call is
  queued with the options of the attempt, and \<open>_downloadFile\<close> resolves the chain from them
  when it starts, leaving out the mirrors banned by then. Two sets are requested at once
  from Nerinyan; the second is refused (403), which bans Nerinyan; the first is answered 429
  and re-submitted, the queue neither paused nor narrowed; the re-submitted call requests
  the set from Catboy. Nor does the re-submitted call always request a mirror: in
  \<open>spent_run\<close> the allowance of 1 is used up by the first set while the second waits; the
  second is answered 429 by Nerinyan, and the re-submitted call emits \<open>dailyRateLimited\<close>
  and requests nothing.
\<close>

theorem C8_counterexample:
  "map_option (map snd \<circ> inflight)
     (run cfg_nerinyan (start_state cfg_nerinyan None [1, 2]) (take 3 rebanned_run))
     = Some [first_attempt Nerinyan 1]
   \<and> map_option bannedMirrors
        (run cfg_nerinyan (start_state cfg_nerinyan None [1, 2]) (take 3 rebanned_run))
       = Some {Nerinyan}
   \<and> map_option tasks
        (run cfg_nerinyan (start_state cfg_nerinyan None [1, 2]) (take 4 rebanned_run))
       = Some [RetryNext 2 [Catboy, OsuDirect, Sayobot, Beatconnect, Nekoha], RetrySame 1 None]
   \<and> map_option isPaused
        (run cfg_nerinyan (start_state cfg_nerinyan None [1, 2]) (take 4 rebanned_run))
       = Some False
   \<and> map_option concurrency
        (run cfg_nerinyan (start_state cfg_nerinyan None [1, 2]) (take 4 rebanned_run))
       = Some 3
   \<and> map_option requests
        (run cfg_nerinyan (start_state cfg_nerinyan None [1, 2]) rebanned_run)
       = Some [(Nerinyan, 1), (Nerinyan, 2), (Catboy, 2), (Catboy, 1)]
   \<and> map_option (map (item \<circ> snd) \<circ> inflight)
        (run cfg_nerinyan (start_state cfg_nerinyan None [1, 2]) rebanned_run)
       = Some [2, 1]
   \<and> map_option (map (currentMirror \<circ> snd) \<circ> inflight)
        (run cfg_nerinyan (start_state cfg_nerinyan None [1, 2]) rebanned_run)
       = Some [Catboy, Catboy]
   \<and> map_option (map (nextMirrors \<circ> snd) \<circ> inflight)
        (run cfg_nerinyan (start_state cfg_nerinyan None [1, 2]) rebanned_run)
       = Some [[OsuDirect, Sayobot, Beatconnect, Nekoha],
               [OsuDirect, Sayobot, Beatconnect, Nekoha]]
   \<and> map_option tasks
        (run cfg_nerinyan (start_state cfg_nerinyan (Some 1) [1, 2]) (take 4 (spent_run 429)))
       = Some [RetrySame 2 None]
   \<and> map_option events
        (run cfg_nerinyan (start_state cfg_nerinyan (Some 1) [1, 2]) (spent_run 429))
       = Some [Downloading 1, Downloading 2, Downloaded 1, DailyRateLimited [2], End [2]]
   \<and> map_option requests
        (run cfg_nerinyan (start_state cfg_nerinyan (Some 1) [1, 2]) (spent_run 429))
       = Some [(Nerinyan, 1), (Nerinyan, 2)]"
  by (simp add: rebanned_run_def spent_run_def ok_response_def first_attempt_def model_defs)

text \<open>
  C8, amended. On a response 429 from Nerinyan, Sayobot, Beatconnect or Nekoha the attempt
  only queues \<open>_downloadFile(beatMapSet, options)\<close> again and returns \<open>false\<close>: the paused
  flag, the concurrency and the timers of the queue are unchanged, no mirror is banned and
  no event (so no \<open>rateLimited\<close>) is emitted. The options are those of the attempt. The
  queued call resolves its chain when the queue starts it: in a state in which at least the
  mirrors banned when the attempt began are banned (every later state of a run), it is the
  chain of the attempt without the mirrors banned by then. So it is the same chain, the same
  mirror first, if none of its mirrors has been banned in between, as when nothing ran in
  between; and it does not contain the mirror of the attempt if that one has been banned.
  This holds for every attempt that the queue has started and every state that the run
  reaches afterwards.
  The started call requests the first mirror of that chain, keeping the rest for its retry;
  with an empty chain it emits the error "All mirrors are banned" and requests nothing, and
  with a chain but a tracked allowance at or below 0 it emits \<open>dailyRateLimited\<close> and
  requests nothing.
\<close>

theorem C8_unthrottled_429:
  assumes "fetched env = FetchResponse r" and "status r = 429"
    and "currentMirror att = Nerinyan \<or> currentMirror att = Sayobot
         \<or> currentMirror att = Beatconnect \<or> currentMirror att = Nekoha"
  shows "downloadFile_respond cfg s att env
           = (queue_add s (RetrySame (item att) (options att)), False)
    \<and> isPaused (fst (downloadFile_respond cfg s att env)) = isPaused s
    \<and> concurrency (fst (downloadFile_respond cfg s att env)) = concurrency s
    \<and> timers (fst (downloadFile_respond cfg s att env)) = timers s
    \<and> events (fst (downloadFile_respond cfg s att env)) = events s
    \<and> bannedMirrors (fst (downloadFile_respond cfg s att env)) = bannedMirrors s
    \<and> tasks (fst (downloadFile_respond cfg s att env))
         = tasks s @ [RetrySame (item att) (options att)]
    \<and> (downloadFile_begin cfg sbeg b opts benv = (s, Some att) \<longrightarrow>
         item att = b \<and> options att = opts
         \<and> allMirrors cfg (fst (downloadFile_respond cfg s att env)) opts
             = currentMirror att # nextMirrors att)
    \<and> (downloadFile_begin cfg sbeg b opts benv = (sb, Some att)
        \<and> bannedMirrors sbeg \<subseteq> bannedMirrors slater \<longrightarrow>
         item att = b \<and> options att = opts
         \<and> allMirrors cfg slater opts
             = filter (\<lambda>m. m \<notin> bannedMirrors slater) (currentMirror att # nextMirrors att)
         \<and> (bannedMirrors slater \<inter> set (currentMirror att # nextMirrors att) = {} \<longrightarrow>
               allMirrors cfg slater opts = currentMirror att # nextMirrors att)
         \<and> (currentMirror att \<in> bannedMirrors slater \<longrightarrow>
               currentMirror att \<notin> set (allMirrors cfg slater opts)))
    \<and> (run cfg sbeg acts = Some slater \<longrightarrow> bannedMirrors sbeg \<subseteq> bannedMirrors slater)
    \<and> (allMirrors cfg slater opts = m # ms
        \<and> \<not> (case remainingDownloadsLimit slater of None \<Rightarrow> False | Some n \<Rightarrow> n \<le> 0) \<longrightarrow>
         requests (startTask cfg slater (RetrySame b opts) benv2) = requests slater @ [(m, b)]
         \<and> inflight (startTask cfg slater (RetrySame b opts) benv2)
             = inflight slater
               @ [(RetrySame b opts,
                   \<lparr>item = b, options = opts, currentMirror = m, nextMirrors = ms,
                    isProbeRequest = testRequest slater\<rparr>)])
    \<and> (allMirrors cfg slater opts = [] \<longrightarrow>
         requests (startTask cfg slater (RetrySame b opts) benv2) = requests slater
         \<and> inflight (startTask cfg slater (RetrySame b opts) benv2) = inflight slater
         \<and> events (startTask cfg slater (RetrySame b opts) benv2)
             = events slater @ Error b AllMirrorsBanned
               # (if tasks slater = [] \<and> inflight slater = [] then [End (beatMapSets slater)]
                  else []))
    \<and> (allMirrors cfg slater opts = m # ms
        \<and> remainingDownloadsLimit slater = Some n \<and> n \<le> 0 \<longrightarrow>
         requests (startTask cfg slater (RetrySame b opts) benv2) = requests slater
         \<and> inflight (startTask cfg slater (RetrySame b opts) benv2) = inflight slater
         \<and> events (startTask cfg slater (RetrySame b opts) benv2)
             = events slater @ DailyRateLimited (beatMapSets slater)
               # (if tasks slater = [] \<and> inflight slater = [] then [End (beatMapSets slater)]
                  else []))
    \<and> (step cfg spre (Start benv) = Some spost \<and> inflight spost = inflight spre @ [(tk, att)]
        \<and> run cfg spost acts = Some slater \<longrightarrow>
         allMirrors cfg slater (options att)
           = filter (\<lambda>m. m \<notin> bannedMirrors slater) (currentMirror att # nextMirrors att))"
proof -
  have eq: "downloadFile_respond cfg s att env
              = (queue_add s (RetrySame (item att) (options att)), False)"
    using assms by (auto simp: downloadFile_respond_def rateLimitCheck_def on429_def)
  have same: "allMirrors cfg (queue_add s (RetrySame (item att) (options att))) opts
          = currentMirror att # nextMirrors att"
    if "downloadFile_begin cfg sbeg b opts benv = (s, Some att)"
  proof -
    have "bannedMirrors (queue_add s (RetrySame (item att) (options att))) = bannedMirrors sbeg"
      using begin_Some(5) [OF that] by (simp add: queue_add_def)
    from allMirrors_cong [OF this] begin_Some(1) [OF that] show ?thesis by simp
  qed
  have later: "item att = b \<and> options att = opts
         \<and> allMirrors cfg slater opts
             = filter (\<lambda>m. m \<notin> bannedMirrors slater) (currentMirror att # nextMirrors att)
         \<and> (bannedMirrors slater \<inter> set (currentMirror att # nextMirrors att) = {} \<longrightarrow>
               allMirrors cfg slater opts = currentMirror att # nextMirrors att)
         \<and> (currentMirror att \<in> bannedMirrors slater \<longrightarrow>
               currentMirror att \<notin> set (allMirrors cfg slater opts))"
    if bg: "downloadFile_begin cfg sbeg b opts benv = (sb, Some att)"
      and sub: "bannedMirrors sbeg \<subseteq> bannedMirrors slater"
  proof -
    have c: "allMirrors cfg slater opts
        = filter (\<lambda>m. m \<notin> bannedMirrors slater) (currentMirror att # nextMirrors att)"
      using allMirrors_later [OF sub, of cfg opts] begin_Some(1) [OF bg] by simp
    have "filter (\<lambda>m. m \<notin> bannedMirrors slater) (currentMirror att # nextMirrors att)
        = currentMirror att # nextMirrors att"
      if "bannedMirrors slater \<inter> set (currentMirror att # nextMirrors att) = {}"
      using that by (intro filter_True) blast
    moreover have "currentMirror att \<notin> set (allMirrors cfg slater opts)"
      if "currentMirror att \<in> bannedMirrors slater"
      using that allMirrors_not_banned by blast
    ultimately show ?thesis
      using begin_Some(2,3) [OF bg] c by simp
  qed
  have mono: "bannedMirrors sbeg \<subseteq> bannedMirrors slater" if "run cfg sbeg acts = Some slater"
    using run_banned [OF that] by blast
  have frame: "isPaused (fst (downloadFile_respond cfg s att env)) = isPaused s
    \<and> concurrency (fst (downloadFile_respond cfg s att env)) = concurrency s
    \<and> timers (fst (downloadFile_respond cfg s att env)) = timers s
    \<and> events (fst (downloadFile_respond cfg s att env)) = events s
    \<and> bannedMirrors (fst (downloadFile_respond cfg s att env)) = bannedMirrors s
    \<and> tasks (fst (downloadFile_respond cfg s att env))
         = tasks s @ [RetrySame (item att) (options att)]"
    by (simp add: eq queue_add_def)
  have between: "downloadFile_begin cfg sbeg b opts benv = (s, Some att) \<longrightarrow>
         item att = b \<and> options att = opts
         \<and> allMirrors cfg (fst (downloadFile_respond cfg s att env)) opts
             = currentMirror att # nextMirrors att"
    using same begin_Some(2,3) [of cfg sbeg b opts benv s att] by (simp add: eq)
  have started: "allMirrors cfg slater opts = m # ms
        \<and> \<not> (case remainingDownloadsLimit slater of None \<Rightarrow> False | Some n \<Rightarrow> n \<le> 0) \<longrightarrow>
         requests (startTask cfg slater (RetrySame b opts) benv2) = requests slater @ [(m, b)]
         \<and> inflight (startTask cfg slater (RetrySame b opts) benv2)
             = inflight slater
               @ [(RetrySame b opts,
                   \<lparr>item = b, options = opts, currentMirror = m, nextMirrors = ms,
                    isProbeRequest = testRequest slater\<rparr>)]"
    using start_resubmitted_request [of cfg slater opts m ms b benv2] by blast
  have ended: "allMirrors cfg slater opts = [] \<longrightarrow>
         requests (startTask cfg slater (RetrySame b opts) benv2) = requests slater
         \<and> inflight (startTask cfg slater (RetrySame b opts) benv2) = inflight slater
         \<and> events (startTask cfg slater (RetrySame b opts) benv2)
             = events slater @ Error b AllMirrorsBanned
               # (if tasks slater = [] \<and> inflight slater = [] then [End (beatMapSets slater)]
                  else [])"
    using start_resubmitted_empty [of cfg slater opts b benv2] by blast
  have spent: "allMirrors cfg slater opts = m # ms
        \<and> remainingDownloadsLimit slater = Some n \<and> n \<le> 0 \<longrightarrow>
         requests (startTask cfg slater (RetrySame b opts) benv2) = requests slater
         \<and> inflight (startTask cfg slater (RetrySame b opts) benv2) = inflight slater
         \<and> events (startTask cfg slater (RetrySame b opts) benv2)
             = events slater @ DailyRateLimited (beatMapSets slater)
               # (if tasks slater = [] \<and> inflight slater = [] then [End (beatMapSets slater)]
                  else [])"
    using start_resubmitted_exhausted [of cfg slater opts m ms n b benv2] by blast
  have inrun: "allMirrors cfg slater (options att)
           = filter (\<lambda>m. m \<notin> bannedMirrors slater) (currentMirror att # nextMirrors att)"
    if st: "step cfg spre (Start benv) = Some spost"
      and i: "inflight spost = inflight spre @ [(tk, att)]"
      and r: "run cfg spost acts = Some slater"
  proof -
    from run_banned [OF r] started_attempt(2) [OF st i]
    have "bannedMirrors spre \<subseteq> bannedMirrors slater" by simp
    from allMirrors_later [OF this, of cfg "options att"] started_attempt(1) [OF st i]
    show ?thesis by simp
  qed
  from eq frame between later mono started ended spent inrun show ?thesis
    by (intro conjI impI) blast+
qed

lemma rebanned_state_simps:
  "run cfg_nerinyan (start_state cfg_nerinyan None [1, 2]) (take 4 rebanned_run)
     = Some rebanned_state"
  "bannedMirrors rebanned_state = {Nerinyan}" "remainingDownloadsLimit rebanned_state = None"
  "requests rebanned_state = [(Nerinyan, 1), (Nerinyan, 2)]"
  "inflight rebanned_state = []" "testRequest rebanned_state = False"
  "tasks rebanned_state
     = [RetryNext 2 [Catboy, OsuDirect, Sayobot, Beatconnect, Nekoha], RetrySame 1 None]"
  "downloadFile_begin cfg_nerinyan (start_state cfg_nerinyan None [1, 2]) 1 None benv_ok
     = (fst (downloadFile_begin cfg_nerinyan (start_state cfg_nerinyan None [1, 2]) 1 None
               benv_ok),
        Some (first_attempt Nerinyan 1))"
  "bannedMirrors (start_state cfg_nerinyan None [1, 2]) = {}"
  by (simp_all add: rebanned_state_def rebanned_run_def first_attempt_def model_defs)

theorem C8_unthrottled_429_witness:
  "downloadFile_begin cfg_nerinyan (start_state cfg_nerinyan None [1]) 1 None benv_ok
     = (nerinyan_begun, Some (first_attempt Nerinyan 1))
   \<and> downloadFile_respond cfg_nerinyan nerinyan_begun (first_attempt Nerinyan 1)
         (response 429 None [])
       = (queue_add nerinyan_begun (RetrySame 1 None), False)
   \<and> isPaused (fst (downloadFile_respond cfg_nerinyan nerinyan_begun (first_attempt Nerinyan 1)
                       (response 429 None []))) = False
   \<and> concurrency (fst (downloadFile_respond cfg_nerinyan nerinyan_begun
                          (first_attempt Nerinyan 1) (response 429 None []))) = 3
   \<and> events (fst (downloadFile_respond cfg_nerinyan nerinyan_begun (first_attempt Nerinyan 1)
                     (response 429 None []))) = [Downloading 1]
   \<and> tasks (fst (downloadFile_respond cfg_nerinyan nerinyan_begun (first_attempt Nerinyan 1)
                    (response 429 None []))) = [BulkTask 1, RetrySame 1 None]
   \<and> allMirrors cfg_nerinyan
        (fst (downloadFile_respond cfg_nerinyan nerinyan_begun (first_attempt Nerinyan 1)
                (response 429 None []))) None
       = [Nerinyan, Catboy, OsuDirect, Sayobot, Beatconnect, Nekoha]
   \<and> bannedMirrors (start_state cfg_nerinyan None [1, 2]) \<subseteq> bannedMirrors rebanned_state
   \<and> bannedMirrors rebanned_state = {Nerinyan}
   \<and> allMirrors cfg_nerinyan rebanned_state None
       = [Catboy, OsuDirect, Sayobot, Beatconnect, Nekoha]
   \<and> Nerinyan \<notin> set (allMirrors cfg_nerinyan rebanned_state None)
   \<and> allMirrors cfg_nerinyan nerinyan_begun None
       = [Nerinyan, Catboy, OsuDirect, Sayobot, Beatconnect, Nekoha]
   \<and> requests (startTask cfg_nerinyan rebanned_state (RetrySame 1 None) benv_ok)
       = [(Nerinyan, 1), (Nerinyan, 2), (Catboy, 1)]
   \<and> map (nextMirrors \<circ> snd)
        (inflight (startTask cfg_nerinyan rebanned_state (RetrySame 1 None) benv_ok))
       = [[OsuDirect, Sayobot, Beatconnect, Nekoha]]
   \<and> events (startTask cfg_catboy all_banned (RetrySame 7 None) benv_ok)
       = [Error 7 AllMirrorsBanned, End [7]]
   \<and> requests (startTask cfg_catboy all_banned (RetrySame 7 None) benv_ok) = []
   \<and> events (startTask cfg_catboy exhausted_state (RetrySame 7 None) benv_ok)
       = [DailyRateLimited [7]]
   \<and> requests (startTask cfg_catboy exhausted_state (RetrySame 7 None) benv_ok) = []
   \<and> allMirrors cfg_nerinyan rebanned_state (options (first_attempt Nerinyan 1))
       = [Catboy, OsuDirect, Sayobot, Beatconnect, Nekoha]"
proof -
  let ?r = "\<lparr>status = 429, xRateLimitRemaining = None, contentDisposition = None,
             body = Some []\<rparr>"
  let ?a = "first_attempt Nerinyan 1"
  have f: "fetched (response 429 None []) = FetchResponse ?r"
    by (simp add: response_def response_at_def)
  have st: "status ?r = 429" by simp
  have m: "currentMirror ?a = Nerinyan \<or> currentMirror ?a = Sayobot
         \<or> currentMirror ?a = Beatconnect \<or> currentMirror ?a = Nekoha"
    by (simp add: first_attempt_def)
  have ch: "currentMirror ?a # nextMirrors ?a
      = [Nerinyan, Catboy, OsuDirect, Sayobot, Beatconnect, Nekoha]"
    by (simp add: first_attempt_def mirror_values_def)
  note T = C8_unthrottled_429 [OF f st m]
  note k9 = T [THEN conjunct2, THEN conjunct2, THEN conjunct2, THEN conjunct2, THEN conjunct2,
      THEN conjunct2, THEN conjunct2, THEN conjunct2, THEN conjunct1, rule_format]
  note k10 = T [THEN conjunct2, THEN conjunct2, THEN conjunct2, THEN conjunct2, THEN conjunct2,
      THEN conjunct2, THEN conjunct2, THEN conjunct2, THEN conjunct2, THEN conjunct1,
      rule_format]
  note k11 = T [THEN conjunct2, THEN conjunct2, THEN conjunct2, THEN conjunct2, THEN conjunct2,
      THEN conjunct2, THEN conjunct2, THEN conjunct2, THEN conjunct2, THEN conjunct2,
      THEN conjunct1, rule_format]
  note k12 = T [THEN conjunct2, THEN conjunct2, THEN conjunct2, THEN conjunct2, THEN conjunct2,
      THEN conjunct2, THEN conjunct2, THEN conjunct2, THEN conjunct2, THEN conjunct2,
      THEN conjunct2, THEN conjunct1, rule_format]
  note k13 = T [THEN conjunct2, THEN conjunct2, THEN conjunct2, THEN conjunct2, THEN conjunct2,
      THEN conjunct2, THEN conjunct2, THEN conjunct2, THEN conjunct2, THEN conjunct2,
      THEN conjunct2, THEN conjunct2, THEN conjunct1, rule_format]
  note k14 = T [THEN conjunct2, THEN conjunct2, THEN conjunct2, THEN conjunct2, THEN conjunct2,
      THEN conjunct2, THEN conjunct2, THEN conjunct2, THEN conjunct2, THEN conjunct2,
      THEN conjunct2, THEN conjunct2, THEN conjunct2, rule_format]
  txt \<open>The response, and the chain when nothing ran in between.\<close>
  from T [where cfg = cfg_nerinyan and s = nerinyan_begun
      and sbeg = "start_state cfg_nerinyan None [1]" and b = 1 and opts = None and benv = benv_ok]
    nerinyan_begun_simps(1)
  have a: "downloadFile_respond cfg_nerinyan nerinyan_begun ?a (response 429 None [])
       = (queue_add nerinyan_begun (RetrySame 1 None), False)
   \<and> isPaused (fst (downloadFile_respond cfg_nerinyan nerinyan_begun ?a
                       (response 429 None []))) = False
   \<and> concurrency (fst (downloadFile_respond cfg_nerinyan nerinyan_begun ?a
                          (response 429 None []))) = 3
   \<and> events (fst (downloadFile_respond cfg_nerinyan nerinyan_begun ?a
                     (response 429 None []))) = [Downloading 1]
   \<and> tasks (fst (downloadFile_respond cfg_nerinyan nerinyan_begun ?a
                    (response 429 None []))) = [BulkTask 1, RetrySame 1 None]
   \<and> allMirrors cfg_nerinyan
        (fst (downloadFile_respond cfg_nerinyan nerinyan_begun ?a (response 429 None []))) None
       = [Nerinyan, Catboy, OsuDirect, Sayobot, Beatconnect, Nekoha]"
    by (simp add: nerinyan_begun_simps first_attempt_def mirror_values_def queue_add_def
        allMirrors_def getFallbackMirrors_def cfg_nerinyan_def)
  txt \<open>The chain after the mirror was banned, and after nothing was banned.\<close>
  from k10 [OF rebanned_state_simps(1)]
  have sub: "bannedMirrors (start_state cfg_nerinyan None [1, 2]) \<subseteq> bannedMirrors rebanned_state" .
  from k9 [of cfg_nerinyan "start_state cfg_nerinyan None [1, 2]" 1 None benv_ok _
      rebanned_state] rebanned_state_simps(8) sub
  have "allMirrors cfg_nerinyan rebanned_state None
          = filter (\<lambda>m. m \<notin> bannedMirrors rebanned_state) (currentMirror ?a # nextMirrors ?a)
      \<and> (currentMirror ?a \<in> bannedMirrors rebanned_state \<longrightarrow>
            currentMirror ?a \<notin> set (allMirrors cfg_nerinyan rebanned_state None))"
    by blast
  then have l: "allMirrors cfg_nerinyan rebanned_state None
       = [Catboy, OsuDirect, Sayobot, Beatconnect, Nekoha]
   \<and> Nerinyan \<notin> set (allMirrors cfg_nerinyan rebanned_state None)"
    by (simp add: ch rebanned_state_simps first_attempt_def mirror_values_def)
  have "bannedMirrors (start_state cfg_nerinyan None [1]) \<subseteq> bannedMirrors nerinyan_begun"
    by (simp add: nerinyan_begun_simps start_state_def bulkDownload_def init_def)
  with k9 [of cfg_nerinyan "start_state cfg_nerinyan None [1]" 1 None benv_ok nerinyan_begun
      nerinyan_begun] nerinyan_begun_simps(1)
  have "bannedMirrors nerinyan_begun \<inter> set (currentMirror ?a # nextMirrors ?a) = {} \<longrightarrow>
      allMirrors cfg_nerinyan nerinyan_begun None = currentMirror ?a # nextMirrors ?a"
    by blast
  then have "allMirrors cfg_nerinyan nerinyan_begun None = currentMirror ?a # nextMirrors ?a"
    by (simp add: nerinyan_begun_simps)
  then have u: "allMirrors cfg_nerinyan nerinyan_begun None
       = [Nerinyan, Catboy, OsuDirect, Sayobot, Beatconnect, Nekoha]"
    unfolding ch .
  txt \<open>The re-submitted call starts.\<close>
  have "allMirrors cfg_nerinyan rebanned_state None = Catboy # [OsuDirect, Sayobot, Beatconnect, Nekoha]
      \<and> \<not> (case remainingDownloadsLimit rebanned_state of None \<Rightarrow> False | Some n \<Rightarrow> n \<le> 0)"
    using l by (simp add: rebanned_state_simps)
  from k11 [OF this, of 1 benv_ok]
  have q: "requests (startTask cfg_nerinyan rebanned_state (RetrySame 1 None) benv_ok)
       = [(Nerinyan, 1), (Nerinyan, 2), (Catboy, 1)]
   \<and> map (nextMirrors \<circ> snd)
        (inflight (startTask cfg_nerinyan rebanned_state (RetrySame 1 None) benv_ok))
       = [[OsuDirect, Sayobot, Beatconnect, Nekoha]]"
    by (simp add: rebanned_state_simps)
  have "allMirrors cfg_catboy all_banned None = []"
    by (simp add: allMirrors_def all_banned_def cfg_catboy_def getFallbackMirrors_def
        mirror_values_def)
  from k12 [OF this, of 7 benv_ok]
  have x: "events (startTask cfg_catboy all_banned (RetrySame 7 None) benv_ok)
       = [Error 7 AllMirrorsBanned, End [7]]
   \<and> requests (startTask cfg_catboy all_banned (RetrySame 7 None) benv_ok) = []"
    by (simp add: all_banned_def init_def)
  have "allMirrors cfg_catboy exhausted_state None
          = Catboy # [Nerinyan, OsuDirect, Sayobot, Beatconnect, Nekoha]
      \<and> remainingDownloadsLimit exhausted_state = Some 0 \<and> (0 :: int) \<le> 0"
    by (simp add: exhausted_state_def model_defs)
  from k13 [OF this, of 7 benv_ok]
  have y: "events (startTask cfg_catboy exhausted_state (RetrySame 7 None) benv_ok)
       = [DailyRateLimited [7]]
   \<and> requests (startTask cfg_catboy exhausted_state (RetrySame 7 None) benv_ok) = []"
    by (simp add: exhausted_state_def model_defs)
  have "step cfg_nerinyan (start_state cfg_nerinyan None [1, 2]) (Start benv_ok)
          = Some (the (step cfg_nerinyan (start_state cfg_nerinyan None [1, 2]) (Start benv_ok)))
      \<and> inflight (the (step cfg_nerinyan (start_state cfg_nerinyan None [1, 2]) (Start benv_ok)))
          = inflight (start_state cfg_nerinyan None [1, 2]) @ [(BulkTask 1, ?a)]
      \<and> run cfg_nerinyan
            (the (step cfg_nerinyan (start_state cfg_nerinyan None [1, 2]) (Start benv_ok)))
            (tl (take 4 rebanned_run)) = Some rebanned_state"
    by (simp add: rebanned_state_def rebanned_run_def first_attempt_def model_defs)
  from k14 [OF this]
  have "allMirrors cfg_nerinyan rebanned_state (options ?a)
      = filter (\<lambda>m. m \<notin> bannedMirrors rebanned_state) (currentMirror ?a # nextMirrors ?a)" .
  then have w: "allMirrors cfg_nerinyan rebanned_state (options ?a)
       = [Catboy, OsuDirect, Sayobot, Beatconnect, Nekoha]"
    by (simp add: rebanned_state_simps(2) first_attempt_def mirror_values_def)
  from nerinyan_begun_simps(1) a sub rebanned_state_simps(2) l u q x y w show ?thesis
    by blast
qed

section \<open>Undersized bodies\<close>

lemma respond_undersized:
  assumes "fetched env = FetchResponse r" and "status r = 200"
    and "getFilename (decodeURIComponent env) r = Some fileName"
    and "body r = Some chunks" and "\<not> streamError env" and "sum_list chunks < 1024"
  shows "downloadFile_respond cfg s att env =
     catchBlock
       ((if isProbeRequest att
         then (rateLimitCheck s (currentMirror att) r)
                \<lparr>concurrency := (if parallel cfg then cfg_concurrency cfg else 1)\<rparr>
         else rateLimitCheck s (currentMirror att) r)
        \<lparr>files := files s - {(path s, fileName)}\<rparr>)
       att (FileTooSmall (sum_list chunks))"
  using assms
  by (auto simp: downloadFile_respond_def on200_def Let_def rateLimitCheck_frame)

lemma respond_other_status:
  assumes "fetched env = FetchResponse r" and "status r \<noteq> 200" and "status r \<noteq> 429"
    and "status r \<noteq> 403" and "status r \<noteq> 451"
  shows "downloadFile_respond cfg s att env =
     catchBlock (rateLimitCheck s (currentMirror att) r) att (StatusCode (status r))"
  using assms by (simp add: downloadFile_respond_def)

text \<open>
  C9. A response 200 whose body, written to the file without a failure, has fewer than
  1024 bytes: the file is unlinked, the attempt returns \<open>false\<close> and goes through the
  \<open>catch\<close> block as a response with any status other than 200, 429, 403 and 451 does:
  with mirrors remaining it emits \<open>retrying\<close> and queues the retry with them, without it
  emits the per-item \<open>error\<close>. The set stays in the collection (whichever task ran the
  attempt), the counters and the allowance are unchanged, the mirror is not banned, and the
  queue is paused only if the quota header check paused it. The one difference from the
  other statuses is that a probe has set the concurrency back before the body was read.
\<close>

theorem C9_undersized_body:
  assumes "fetched env = FetchResponse r" and "status r = 200"
    and "getFilename (decodeURIComponent env) r = Some fileName"
    and "body r = Some chunks" and "\<not> streamError env" and "sum_list chunks < 1024"
  shows "(let s' = fst (downloadFile_respond cfg s att env);
              ok = snd (downloadFile_respond cfg s att env);
              s1 = rateLimitCheck s (currentMirror att) r;
              other = downloadFile_respond cfg s att
                        (env\<lparr>fetched := FetchResponse (r\<lparr>status := st\<rparr>)\<rparr>)
          in \<not> ok
    \<and> (path s, fileName) \<notin> files s'
    \<and> tasks s' = tasks s @ (if nextMirrors att \<noteq> []
                             then [RetryNext (item att) (nextMirrors att)] else [])
    \<and> events s' = events s1 @ [if nextMirrors att \<noteq> [] then Retrying (item att)
                                 else Error (item att) (FileTooSmall (sum_list chunks))]
    \<and> beatMapSets (finishTask s' t (item att) ok) = beatMapSets s
    \<and> downloadedBeatMapSetSize s' = downloadedBeatMapSetSize s
    \<and> remainingDownloadsLimit s' = remainingDownloadsLimit s
    \<and> isPaused s' = isPaused s1 \<and> timers s' = timers s1 \<and> bannedMirrors s' = bannedMirrors s
    \<and> concurrency s' = (if isProbeRequest att
                         then (if parallel cfg then cfg_concurrency cfg else 1)
                         else concurrency s1)
    \<and> (st \<noteq> 200 \<and> st \<noteq> 429 \<and> st \<noteq> 403 \<and> st \<noteq> 451 \<longrightarrow>
          snd other = ok \<and> tasks (fst other) = tasks s' \<and> isPaused (fst other) = isPaused s'
          \<and> beatMapSets (fst other) = beatMapSets s' \<and> testRequest (fst other) = testRequest s'
          \<and> bannedMirrors (fst other) = bannedMirrors s'
          \<and> events (fst other) = events s1 @ [if nextMirrors att \<noteq> [] then Retrying (item att)
                                                else Error (item att) (StatusCode st)]))"
proof -
  note u = respond_undersized [OF assms, of cfg s att]
  have rl: "rateLimitCheck s (currentMirror att) (r\<lparr>status := st\<rparr>)
              = rateLimitCheck s (currentMirror att) r"
    by (simp add: rateLimitCheck_def)
  have o: "downloadFile_respond cfg s att (env\<lparr>fetched := FetchResponse (r\<lparr>status := st\<rparr>)\<rparr>)
             = catchBlock (rateLimitCheck s (currentMirror att) r) att (StatusCode st)"
    if "st \<noteq> 200 \<and> st \<noteq> 429 \<and> st \<noteq> 403 \<and> st \<noteq> 451"
    using that respond_other_status [of "env\<lparr>fetched := FetchResponse (r\<lparr>status := st\<rparr>)\<rparr>" "r\<lparr>status := st\<rparr>" cfg s att]
    by (simp add: rl)
  show ?thesis
    unfolding Let_def u
    using o by (auto simp: catchBlock_simps catchBlock_frame2 rateLimitCheck_frame
        rateLimitCheck_frame2 finishTask_def split: Task.splits)
qed

theorem C9_undersized_body_witness:
  "sum_list [100, 23] < (1024 :: nat)
   \<and> \<not> snd (downloadFile_respond cfg_catboy waiting_state (first_attempt Catboy 1)
              (response 200 None [100, 23]))
   \<and> (''Songs'', ''Untitled.osz'')
        \<notin> files (fst (downloadFile_respond cfg_catboy waiting_state (first_attempt Catboy 1)
                         (response 200 None [100, 23])))
   \<and> tasks (fst (downloadFile_respond cfg_catboy waiting_state (first_attempt Catboy 1)
                    (response 200 None [100, 23])))
       = [BulkTask 2, RetryNext 1 [Nerinyan, OsuDirect, Sayobot, Beatconnect, Nekoha]]
   \<and> events (fst (downloadFile_respond cfg_catboy waiting_state (first_attempt Catboy 1)
                     (response 200 None [100, 23])))
       = [Downloading 1, Retrying 1]
   \<and> events (fst (downloadFile_respond cfg_catboy waiting_state (last_attempt Nekoha 1)
                     (response 200 None [100, 23])))
       = [Downloading 1, Error 1 (FileTooSmall 123)]
   \<and> beatMapSets (finishTask (fst (downloadFile_respond cfg_catboy waiting_state
                                      (last_attempt Nekoha 1) (response 200 None [100, 23])))
                     (RetryNext 1 [Nekoha]) 1
                     (snd (downloadFile_respond cfg_catboy waiting_state
                             (last_attempt Nekoha 1) (response 200 None [100, 23]))))
       = [1, 2]
   \<and> events (fst (downloadFile_respond cfg_catboy waiting_state (last_attempt Nekoha 1)
                     (response 500 None [100, 23])))
       = [Downloading 1, Error 1 (StatusCode 500)]"
proof -
  let ?r = "\<lparr>status = 200, xRateLimitRemaining = None, contentDisposition = None,
             body = Some [100, 23]\<rparr>"
  have f: "fetched (response 200 None [100, 23]) = FetchResponse ?r"
    and st: "status ?r = 200"
    and n: "getFilename (decodeURIComponent (response 200 None [100, 23])) ?r = Some ''Untitled.osz''"
    and b: "body ?r = Some [100, 23]"
    and e: "\<not> streamError (response 200 None [100, 23])"
    and l: "sum_list [100, 23] < (1024 :: nat)"
    by (simp_all add: response_def response_at_def getFilename_def)
  have o: "(response 200 None [100, 23])
             \<lparr>fetched := FetchResponse \<lparr>status = 500, xRateLimitRemaining = None,
                                          contentDisposition = None, body = Some [100, 23]\<rparr>\<rparr>
             = response 500 None [100, 23]"
    by (simp add: response_def response_at_def)
  note a = C9_undersized_body [OF f st n b e l, where cfg = cfg_catboy and s = waiting_state
      and att = "first_attempt Catboy 1" and t = "BulkTask 1" and st = 500]
  note c = C9_undersized_body [OF f st n b e l, where cfg = cfg_catboy and s = waiting_state
      and att = "last_attempt Nekoha 1" and t = "RetryNext 1 [Nekoha]" and st = 500]
  have p: "path waiting_state = ''Songs''"
    by (simp add: waiting_state_def model_defs)
  from a have "\<not> snd (downloadFile_respond cfg_catboy waiting_state (first_attempt Catboy 1)
              (response 200 None [100, 23]))
   \<and> (''Songs'', ''Untitled.osz'')
        \<notin> files (fst (downloadFile_respond cfg_catboy waiting_state (first_attempt Catboy 1)
                         (response 200 None [100, 23])))
   \<and> tasks (fst (downloadFile_respond cfg_catboy waiting_state (first_attempt Catboy 1)
                    (response 200 None [100, 23])))
       = [BulkTask 2, RetryNext 1 [Nerinyan, OsuDirect, Sayobot, Beatconnect, Nekoha]]
   \<and> events (fst (downloadFile_respond cfg_catboy waiting_state (first_attempt Catboy 1)
                     (response 200 None [100, 23])))
       = [Downloading 1, Retrying 1]"
    by (simp add: Let_def p waiting_state_simps first_attempt_def mirror_values_def
        rateLimitCheck_def)
  moreover from c have "events (fst (downloadFile_respond cfg_catboy waiting_state (last_attempt Nekoha 1)
                     (response 200 None [100, 23])))
       = [Downloading 1, Error 1 (FileTooSmall 123)]
   \<and> beatMapSets (finishTask (fst (downloadFile_respond cfg_catboy waiting_state
                                      (last_attempt Nekoha 1) (response 200 None [100, 23])))
                     (RetryNext 1 [Nekoha]) 1
                     (snd (downloadFile_respond cfg_catboy waiting_state
                             (last_attempt Nekoha 1) (response 200 None [100, 23]))))
       = [1, 2]
   \<and> events (fst (downloadFile_respond cfg_catboy waiting_state (last_attempt Nekoha 1)
                     (response 500 None [100, 23])))
       = [Downloading 1, Error 1 (StatusCode 500)]"
    by (auto simp: Let_def o waiting_state_simps last_attempt_def rateLimitCheck_def)
  ultimately show ?thesis using l by blast
qed

section \<open>A download after a 429\<close>

text \<open>
  What a successful download changes, and what the task that ran it does next: the set is
  counted and announced once, the allowance is decremented, nothing is queued, and the set
  leaves the collection unless the task is the re-submission after a 429.
\<close>

lemma finish_after_success:
  assumes "fetched env = FetchResponse r" and "status r = 200"
    and "getFilename (decodeURIComponent env) r = Some fileName"
    and "body r = Some chunks" and "\<not> streamError env" and "1024 \<le> sum_list chunks"
  shows "snd (downloadFile_respond cfg s att env)"
    and "events (fst (downloadFile_respond cfg s att env))
           = events (rateLimitCheck s (currentMirror att) r) @ [Downloaded (item att)]"
    and "downloadedBeatMapSetSize (fst (downloadFile_respond cfg s att env))
           = downloadedBeatMapSetSize s + 1"
    and "tasks (fst (downloadFile_respond cfg s att env)) = tasks s"
    and "beatMapSets (finishTask (fst (downloadFile_respond cfg s att env)) t (item att)
                        (snd (downloadFile_respond cfg s att env)))
           = (case t of
                RetrySame _ _ \<Rightarrow> beatMapSets s
              | _ \<Rightarrow> filter (\<lambda>i. i \<noteq> item att) (beatMapSets s))"
  by (cases t; simp add: respond_success [OF assms] emit_def rateLimitCheck_frame
      finishTask_def collection_delete_def)+

text \<open>
  C6 fails on the code for a set whose successful attempt was queued by the 429 branch.
  That closure, \<open>async () => await this._downloadFile(beatMapSet, options)\<close>, drops the
  result, while the task of \<open>bulkDownload\<close> and the retry of the \<open>catch\<close> block delete the
  set from the collection when \<open>_downloadFile\<close> returns \<open>true\<close>. Here set 7 is answered
  429 by Nerinyan and then 200 with 2000 bytes: it is counted and announced as downloaded
  once and nothing more is queued for it, but it is still in the collection, and \<open>end\<close>
  reports it as not downloaded. Without the 429 the same download empties the collection.
\<close>

theorem C6_set_downloaded_after_429_stays_pending:
  "map_option events (run cfg_nerinyan (start_state cfg_nerinyan None [7]) retried_run)
     = Some [Downloading 7, Downloading 7, Downloaded 7, End [7]]
   \<and> map_option downloadedBeatMapSetSize
        (run cfg_nerinyan (start_state cfg_nerinyan None [7]) retried_run) = Some 1
   \<and> map_option getNotDownloadedBeatapSets
        (run cfg_nerinyan (start_state cfg_nerinyan None [7]) retried_run) = Some [7]
   \<and> map_option tasks (run cfg_nerinyan (start_state cfg_nerinyan None [7]) retried_run)
       = Some []
   \<and> map_option events
        (run cfg_nerinyan (start_state cfg_nerinyan None [7]) [Start benv_ok, Respond 0 ok_response])
       = Some [Downloading 7, Downloaded 7, End []]
   \<and> map_option getNotDownloadedBeatapSets
        (run cfg_nerinyan (start_state cfg_nerinyan None [7]) [Start benv_ok, Respond 0 ok_response])
       = Some []"
  by (simp add: retried_run_def ok_response_def model_defs)

section \<open>The allowance check of a probe\<close>


lemma respond_checks:
  "(checks (fst (downloadFile_respond cfg s att env)) = checks s
      \<and> lastDownloadsLimitCheck (fst (downloadFile_respond cfg s att env))
          = lastDownloadsLimitCheck s)
   \<or> (checks (fst (downloadFile_respond cfg s att env)) = checks s @ [now env]
      \<and> lastDownloadsLimitCheck (fst (downloadFile_respond cfg s att env)) = Some (now env)
      \<and> (case lastDownloadsLimitCheck s of None \<Rightarrow> True
          | Some t \<Rightarrow> t = 0 \<or> now env - t > 5000))"
proof (cases "fetched env")
  case FetchThrows
  then show ?thesis by (simp add: downloadFile_respond_def catchBlock_simps)
next
  case (FetchResponse r)
  have c: "checks (rateLimitCheck s (currentMirror att) r) = checks s"
    and l: "lastDownloadsLimitCheck (rateLimitCheck s (currentMirror att) r)
              = lastDownloadsLimitCheck s"
    by (simp_all add: rateLimitCheck_frame)
  show ?thesis
  proof (cases "status r = 429")
    case True
    with FetchResponse show ?thesis
      by (auto simp: downloadFile_respond_def on429_def resubmit429_def emit_rateLimited_def
          emit_def queue_add_def Let_def catchBlock_simps c l
          split: CheckResult.splits option.splits)
  next
    case False
    with FetchResponse show ?thesis
      by (auto simp: downloadFile_respond_def on200_def emit_def Let_def catchBlock_simps c l
          split: option.splits)
  qed
qed

lemma finish_checks:
  "checks (taskDone (finishTask s t b ok)) = checks s"
  "lastDownloadsLimitCheck (taskDone (finishTask s t b ok)) = lastDownloadsLimitCheck s"
  by (cases t; simp add: taskDone_def finishTask_def collection_delete_def emit_def)+

lemma launch_checks:
  "checks (launch cfg s t b opts benv) = checks s"
  "lastDownloadsLimitCheck (launch cfg s t b opts benv) = lastDownloadsLimitCheck s"
  using begin_frame(1,2) [of cfg s b opts benv]
  by (cases "downloadFile_begin cfg s b opts benv"; cases "snd (downloadFile_begin cfg s b opts benv)";
      simp add: launch_def finish_checks)+

lemma startTask_checks:
  "checks (startTask cfg s t benv) = checks s"
  "lastDownloadsLimitCheck (startTask cfg s t benv) = lastDownloadsLimitCheck s"
  by (cases t; simp add: startTask_def launch_checks taskDone_def collection_delete_def emit_def)+

lemma step_checks:
  assumes "step cfg s a = Some s'"
  shows "(checks s' = checks s \<and> lastDownloadsLimitCheck s' = lastDownloadsLimitCheck s)
   \<or> (\<exists>t. checks s' = checks s @ [t] \<and> lastDownloadsLimitCheck s' = Some t
          \<and> (case lastDownloadsLimitCheck s of None \<Rightarrow> True
              | Some u \<Rightarrow> u = 0 \<or> t - u > 5000))"
proof (cases a)
  case (Start benv)
  with assms show ?thesis
    by (auto simp: step_def startTask_checks split: if_splits list.splits)
next
  case (Respond k env)
  with assms have k: "k < length (inflight s)" by (auto simp: step_def split: if_splits)
  define s1 where "s1 = s\<lparr>inflight := take k (inflight s) @ drop (Suc k) (inflight s)\<rparr>"
  define att where "att = snd (inflight s ! k)"
  obtain s2 ok where r: "downloadFile_respond cfg s1 att env = (s2, ok)"
    by (cases "downloadFile_respond cfg s1 att env")
  with assms Respond k have s': "s' = taskDone (finishTask s2 (fst (inflight s ! k)) (item att) ok)"
    by (simp add: step_def Let_def s1_def att_def)
  have "checks s1 = checks s" "lastDownloadsLimitCheck s1 = lastDownloadsLimitCheck s"
    by (simp_all add: s1_def)
  with respond_checks [of cfg s1 att env] r show ?thesis
    by (auto simp: s' finish_checks)
next
  case Timeout
  with assms show ?thesis
    by (auto simp: step_def taskDone_frame split: list.splits if_splits)
qed








section \<open>The daily allowance\<close>

text \<open>
  As long as no allowance check is made, the tracked allowance and the number of downloads
  (the downloaded counter without the skipped sets) move together, and while the allowance
  is at or below 0 nothing is requested.
\<close>

lemma catchBlock_counters:
  "skippedBeatMapSetSize (fst (catchBlock s att e)) = skippedBeatMapSetSize s"
  by (simp add: catchBlock_def emit_def queue_add_def Let_def)

lemma on429_allowance:
  assumes "checks (fst (on429 s att env)) = checks s"
  shows "remainingDownloadsLimit (fst (on429 s att env)) = remainingDownloadsLimit s"
    and "downloadedBeatMapSetSize (fst (on429 s att env)) = downloadedBeatMapSetSize s"
    and "skippedBeatMapSetSize (fst (on429 s att env)) = skippedBeatMapSetSize s"
  using assms
  by (auto simp: on429_def resubmit429_def emit_rateLimited_def emit_def queue_add_def Let_def
      catchBlock_def split: CheckResult.splits if_splits)

lemma on200_allowance:
  "skippedBeatMapSetSize (fst (on200 cfg s att r env)) = skippedBeatMapSetSize s"
  "(downloadedBeatMapSetSize (fst (on200 cfg s att r env)) = downloadedBeatMapSetSize s
      \<and> remainingDownloadsLimit (fst (on200 cfg s att r env)) = remainingDownloadsLimit s)
   \<or> (downloadedBeatMapSetSize (fst (on200 cfg s att r env)) = downloadedBeatMapSetSize s + 1
      \<and> remainingDownloadsLimit (fst (on200 cfg s att r env))
          = map_option (\<lambda>n. n - 1) (remainingDownloadsLimit s))"
  by (auto simp: on200_def Let_def catchBlock_def emit_def queue_add_def split: option.splits)

lemma respond_allowance:
  assumes "checks (fst (downloadFile_respond cfg s att env)) = checks s"
  shows "skippedBeatMapSetSize (fst (downloadFile_respond cfg s att env))
           = skippedBeatMapSetSize s"
    and "(downloadedBeatMapSetSize (fst (downloadFile_respond cfg s att env))
            = downloadedBeatMapSetSize s
          \<and> remainingDownloadsLimit (fst (downloadFile_respond cfg s att env))
              = remainingDownloadsLimit s)
       \<or> (downloadedBeatMapSetSize (fst (downloadFile_respond cfg s att env))
            = downloadedBeatMapSetSize s + 1
          \<and> remainingDownloadsLimit (fst (downloadFile_respond cfg s att env))
              = map_option (\<lambda>n. n - 1) (remainingDownloadsLimit s))"
proof -
  have "skippedBeatMapSetSize (fst (downloadFile_respond cfg s att env))
           = skippedBeatMapSetSize s
     \<and> ((downloadedBeatMapSetSize (fst (downloadFile_respond cfg s att env))
            = downloadedBeatMapSetSize s
          \<and> remainingDownloadsLimit (fst (downloadFile_respond cfg s att env))
              = remainingDownloadsLimit s)
       \<or> (downloadedBeatMapSetSize (fst (downloadFile_respond cfg s att env))
            = downloadedBeatMapSetSize s + 1
          \<and> remainingDownloadsLimit (fst (downloadFile_respond cfg s att env))
              = map_option (\<lambda>n. n - 1) (remainingDownloadsLimit s)))"
  proof (cases "fetched env")
    case FetchThrows
    then show ?thesis
      by (simp add: downloadFile_respond_def catchBlock_simps catchBlock_counters)
  next
    case (FetchResponse r)
    let ?s1 = "rateLimitCheck s (currentMirror att) r"
    show ?thesis
    proof (cases "status r = 429")
      case True
      then have e: "downloadFile_respond cfg s att env = on429 ?s1 att env"
        using FetchResponse by (simp add: downloadFile_respond_def)
      from assms have "checks (fst (on429 ?s1 att env)) = checks ?s1"
        by (simp add: e rateLimitCheck_frame)
      from on429_allowance [OF this] show ?thesis
        by (simp add: e rateLimitCheck_frame)
    next
      case False
      with FetchResponse on200_allowance [of cfg ?s1 att r env] show ?thesis
        by (auto simp: downloadFile_respond_def Let_def catchBlock_simps catchBlock_counters
            emit_def rateLimitCheck_frame)
    qed
  qed
  then show "skippedBeatMapSetSize (fst (downloadFile_respond cfg s att env))
           = skippedBeatMapSetSize s"
    and "(downloadedBeatMapSetSize (fst (downloadFile_respond cfg s att env))
            = downloadedBeatMapSetSize s
          \<and> remainingDownloadsLimit (fst (downloadFile_respond cfg s att env))
              = remainingDownloadsLimit s)
       \<or> (downloadedBeatMapSetSize (fst (downloadFile_respond cfg s att env))
            = downloadedBeatMapSetSize s + 1
          \<and> remainingDownloadsLimit (fst (downloadFile_respond cfg s att env))
              = map_option (\<lambda>n. n - 1) (remainingDownloadsLimit s))"
    by blast+
qed

lemma begin_counters:
  "downloadedBeatMapSetSize (fst (downloadFile_begin cfg s b opts benv))
     = downloadedBeatMapSetSize s"
  "skippedBeatMapSetSize (fst (downloadFile_begin cfg s b opts benv)) = skippedBeatMapSetSize s"
  "remainingDownloadsLimit (fst (downloadFile_begin cfg s b opts benv))
     = remainingDownloadsLimit s"
  by (cases "allMirrors cfg s opts"; simp add: downloadFile_begin_def Let_def emit_def)+

lemma launch_counters:
  "downloadedBeatMapSetSize (launch cfg s t b opts benv) = downloadedBeatMapSetSize s"
  "skippedBeatMapSetSize (launch cfg s t b opts benv) = skippedBeatMapSetSize s"
  "remainingDownloadsLimit (launch cfg s t b opts benv) = remainingDownloadsLimit s"
  using begin_counters [of cfg s b opts benv]
  by (cases "downloadFile_begin cfg s b opts benv"; cases "snd (downloadFile_begin cfg s b opts benv)";
      simp add: launch_def taskDone_frame finishTask_frame)+

lemma launch_exhausted:
  assumes "remainingDownloadsLimit s = Some n" and "n \<le> 0"
  shows "requests (launch cfg s t b opts benv) = requests s"
  by (simp add: launch_def begin_exhausted [OF assms] taskDone_frame2 finishTask_frame2 emit_def)

lemma startTask_allowance:
  "remainingDownloadsLimit (startTask cfg s t benv) = remainingDownloadsLimit s"
  "int (downloadedBeatMapSetSize (startTask cfg s t benv))
     - int (skippedBeatMapSetSize (startTask cfg s t benv))
   = int (downloadedBeatMapSetSize s) - int (skippedBeatMapSetSize s)"
  by (cases t; simp add: startTask_def launch_counters taskDone_def collection_delete_def
      emit_def)+

lemma startTask_exhausted:
  assumes "remainingDownloadsLimit s = Some n" and "n \<le> 0"
  shows "requests (startTask cfg s t benv) = requests s"
  using launch_exhausted [OF assms]
  by (cases t) (simp_all add: startTask_def taskDone_frame2 collection_delete_def emit_def)

lemma step_allowance:
  assumes "step cfg s a = Some s'" and "checks s' = checks s"
  shows "remainingDownloadsLimit s'
           = map_option
               (\<lambda>n. n - ((int (downloadedBeatMapSetSize s') - int (skippedBeatMapSetSize s'))
                          - (int (downloadedBeatMapSetSize s) - int (skippedBeatMapSetSize s))))
               (remainingDownloadsLimit s)"
    and "int (downloadedBeatMapSetSize s) - int (skippedBeatMapSetSize s)
           \<le> int (downloadedBeatMapSetSize s') - int (skippedBeatMapSetSize s')"
    and "remainingDownloadsLimit s = Some n \<Longrightarrow> n \<le> 0 \<Longrightarrow> requests s' = requests s"
proof -
  have "remainingDownloadsLimit s'
           = map_option
               (\<lambda>n. n - ((int (downloadedBeatMapSetSize s') - int (skippedBeatMapSetSize s'))
                          - (int (downloadedBeatMapSetSize s) - int (skippedBeatMapSetSize s))))
               (remainingDownloadsLimit s)
    \<and> int (downloadedBeatMapSetSize s) - int (skippedBeatMapSetSize s)
           \<le> int (downloadedBeatMapSetSize s') - int (skippedBeatMapSetSize s')
    \<and> (remainingDownloadsLimit s = Some n \<and> n \<le> 0 \<longrightarrow> requests s' = requests s)"
  proof (cases a)
    case (Start benv)
    with assms(1) obtain t ts where "tasks s = t # ts"
      and s': "s' = startTask cfg (s\<lparr>tasks := ts\<rparr>) t benv"
      by (auto simp: step_def split: if_splits list.splits)
    from startTask_allowance [of cfg "s\<lparr>tasks := ts\<rparr>" t benv]
      startTask_exhausted [of "s\<lparr>tasks := ts\<rparr>" n cfg t benv]
    show ?thesis
      by (cases "remainingDownloadsLimit s") (simp_all add: s')
  next
    case (Respond k env)
    with assms have k: "k < length (inflight s)" by (auto simp: step_def split: if_splits)
    define s1 where "s1 = s\<lparr>inflight := take k (inflight s) @ drop (Suc k) (inflight s)\<rparr>"
    define att where "att = snd (inflight s ! k)"
    obtain s2 ok where r: "downloadFile_respond cfg s1 att env = (s2, ok)"
      by (cases "downloadFile_respond cfg s1 att env")
    with assms(1) Respond k have s': "s' = taskDone (finishTask s2 (fst (inflight s ! k)) (item att) ok)"
      by (simp add: step_def Let_def s1_def att_def)
    have "checks (fst (downloadFile_respond cfg s1 att env)) = checks s1"
      using assms(2) r by (simp add: s' taskDone_frame finishTask_frame s1_def)
    from respond_allowance [OF this] respond_requests [of cfg s1 att env] r
    show ?thesis
      by (cases "remainingDownloadsLimit s")
         (auto simp: s' taskDone_frame finishTask_frame taskDone_frame2 finishTask_frame2 s1_def)
  next
    case Timeout
    with assms(1) show ?thesis
      by (cases "remainingDownloadsLimit s")
         (auto simp: step_def taskDone_frame taskDone_frame2 split: list.splits if_splits)
  qed
  then show "remainingDownloadsLimit s'
           = map_option
               (\<lambda>n. n - ((int (downloadedBeatMapSetSize s') - int (skippedBeatMapSetSize s'))
                          - (int (downloadedBeatMapSetSize s) - int (skippedBeatMapSetSize s))))
               (remainingDownloadsLimit s)"
    and "int (downloadedBeatMapSetSize s) - int (skippedBeatMapSetSize s)
           \<le> int (downloadedBeatMapSetSize s') - int (skippedBeatMapSetSize s')"
    and "remainingDownloadsLimit s = Some n \<Longrightarrow> n \<le> 0 \<Longrightarrow> requests s' = requests s"
    by blast+
qed

lemma run_checks_prefix:
  "run cfg s acts = Some s' \<Longrightarrow> \<exists>xs. checks s' = checks s @ xs"
proof (induction acts arbitrary: s)
  case Nil
  then show ?case by simp
next
  case (Cons a acts)
  then obtain s1 where s1: "step cfg s a = Some s1" and r: "run cfg s1 acts = Some s'"
    by (auto split: option.splits)
  from step_checks [OF s1] obtain ys where "checks s1 = checks s @ ys" by auto
  moreover from Cons.IH [OF r] obtain zs where "checks s' = checks s1 @ zs" by blast
  ultimately show ?case by simp
qed

lemma run_allowance:
  "run cfg s acts = Some s' \<Longrightarrow> checks s' = checks s \<Longrightarrow>
     remainingDownloadsLimit s'
       = map_option
           (\<lambda>n. n - ((int (downloadedBeatMapSetSize s') - int (skippedBeatMapSetSize s'))
                      - (int (downloadedBeatMapSetSize s) - int (skippedBeatMapSetSize s))))
           (remainingDownloadsLimit s)
     \<and> int (downloadedBeatMapSetSize s) - int (skippedBeatMapSetSize s)
           \<le> int (downloadedBeatMapSetSize s') - int (skippedBeatMapSetSize s')"
proof (induction acts arbitrary: s)
  case Nil
  then show ?case by (cases "remainingDownloadsLimit s") simp_all
next
  case (Cons a acts)
  then obtain s1 where s1: "step cfg s a = Some s1" and r: "run cfg s1 acts = Some s'"
    by (auto split: option.splits)
  from step_checks [OF s1] obtain ys where y: "checks s1 = checks s @ ys" by auto
  from run_checks_prefix [OF r] obtain zs where z: "checks s' = checks s1 @ zs" by blast
  from y z Cons.prems(2) have c1: "checks s1 = checks s" and c2: "checks s' = checks s1"
    by simp_all
  from step_allowance(1,2) [OF s1 c1] Cons.IH [OF r c2] show ?case
    by (cases "remainingDownloadsLimit s") simp_all
qed

lemma run_exhausted:
  "run cfg s acts = Some s' \<Longrightarrow> checks s' = checks s \<Longrightarrow>
     remainingDownloadsLimit s = Some n \<Longrightarrow> n \<le> 0 \<Longrightarrow> requests s' = requests s"
proof (induction acts arbitrary: s n)
  case Nil
  then show ?case by simp
next
  case (Cons a acts)
  then obtain s1 where s1: "step cfg s a = Some s1" and r: "run cfg s1 acts = Some s'"
    by (auto split: option.splits)
  from step_checks [OF s1] obtain ys where y: "checks s1 = checks s @ ys" by auto
  from run_checks_prefix [OF r] obtain zs where z: "checks s' = checks s1 @ zs" by blast
  from y z Cons.prems(2) have c1: "checks s1 = checks s" and c2: "checks s' = checks s1"
    by simp_all
  from step_allowance [OF s1 c1] Cons.prems(3,4)
  obtain m where "remainingDownloadsLimit s1 = Some m" and "m \<le> 0"
    and q: "requests s1 = requests s"
    by auto
  from Cons.IH [OF r c2 this(1,2)] q show ?case by simp
qed

lemma bulkDownload_counters:
  "remainingDownloadsLimit (bulkDownload cfg (init cfg limit dir sets) entries) = limit"
  "downloadedBeatMapSetSize (bulkDownload cfg (init cfg limit dir sets) entries) = 0"
  "skippedBeatMapSetSize (bulkDownload cfg (init cfg limit dir sets) entries) = 0"
  "checks (bulkDownload cfg (init cfg limit dir sets) entries) = []"
  by (simp_all add: bulkDownload_def init_def Let_def split: option.splits)

text \<open>
  C4, as stated, fails in two places. Where the chain of the attempt is empty, the error
  "All mirrors are banned" is emitted and not \<open>dailyRateLimited\<close>: the test for an empty
  chain comes before the test of the allowance. The first three lines show it on a state in
  which every mirror is banned and the allowance is 0; the next four show such a start in a
  run from the initial state (allowance 1): after \<open>blocked_run\<close> the allowance is 0 and the
  retry of set 2 is queued with five mirrors, all banned by then. (The manager does not stop
  its queue when it emits \<open>blocked\<close>; whether the run ends there is up to the listeners of
  its caller.) And an allowance that has reached 0 does not stay there: the allowance check
  made for a probe that is answered 429 replaces it. In \<open>resync_run\<close>, with allowance 5 and
  eight sets, the fifth download brings the allowance to 0 while a probe waits for its
  response; the probe is answered 429, the check reports 50, and the eighth set is
  requested afterwards.
\<close>

theorem C4_counterexample:
  "remainingDownloadsLimit all_banned_exhausted = Some 0
   \<and> downloadFile cfg_catboy all_banned_exhausted 7 None benv_ok ok_response
       = (emit all_banned_exhausted (Error 7 AllMirrorsBanned), False)
   \<and> events (fst (downloadFile cfg_catboy all_banned_exhausted 7 None benv_ok ok_response))
       = [Error 7 AllMirrorsBanned]
   \<and> map_option remainingDownloadsLimit
        (run cfg_nerinyan (start_state cfg_nerinyan (Some 1) [1, 2, 3]) blocked_run)
       = Some (Some 0)
   \<and> map_option tasks
        (run cfg_nerinyan (start_state cfg_nerinyan (Some 1) [1, 2, 3]) blocked_run)
       = Some [RetryNext 2 [Catboy, OsuDirect, Sayobot, Beatconnect, Nekoha]]
   \<and> map_option (drop 16 \<circ> events)
        (run cfg_nerinyan (start_state cfg_nerinyan (Some 1) [1, 2, 3])
           (blocked_run @ [Start benv_ok]))
       = Some [Error 2 AllMirrorsBanned, End [2, 3]]
   \<and> map_option (drop 8 \<circ> requests)
        (run cfg_nerinyan (start_state cfg_nerinyan (Some 1) [1, 2, 3])
           (blocked_run @ [Start benv_ok]))
       = Some []
   \<and> map_option downloadedBeatMapSetSize
        (run cfg_catboy (start_state cfg_catboy (Some 5) [1, 2, 3, 4, 5, 6, 7, 8])
           (take 14 resync_run)) = Some 5
   \<and> map_option remainingDownloadsLimit
        (run cfg_catboy (start_state cfg_catboy (Some 5) [1, 2, 3, 4, 5, 6, 7, 8])
           (take 14 resync_run)) = Some (Some 0)
   \<and> map_option requests
        (run cfg_catboy (start_state cfg_catboy (Some 5) [1, 2, 3, 4, 5, 6, 7, 8])
           (take 14 resync_run))
       = Some [(Catboy, 1), (Catboy, 2), (Catboy, 3), (Catboy, 4), (Catboy, 5), (Catboy, 6),
               (Catboy, 7)]
   \<and> map_option (map (isProbeRequest \<circ> snd) \<circ> inflight)
        (run cfg_catboy (start_state cfg_catboy (Some 5) [1, 2, 3, 4, 5, 6, 7, 8])
           (take 14 resync_run)) = Some [True, False]
   \<and> map_option remainingDownloadsLimit
        (run cfg_catboy (start_state cfg_catboy (Some 5) [1, 2, 3, 4, 5, 6, 7, 8])
           (take 15 resync_run)) = Some (Some 50)
   \<and> map_option checks
        (run cfg_catboy (start_state cfg_catboy (Some 5) [1, 2, 3, 4, 5, 6, 7, 8]) resync_run)
       = Some [200000]
   \<and> map_option (drop 7 \<circ> requests)
        (run cfg_catboy (start_state cfg_catboy (Some 5) [1, 2, 3, 4, 5, 6, 7, 8]) resync_run)
       = Some [(Catboy, 8)]"
  by (simp add: all_banned_exhausted_def all_banned_def blocked_run_def resync_run_def
      ok_response_def downloadFile_def model_defs)

text \<open>
  C4, amended. A download that succeeds (status 200, file name extracted, body of at least
  1024 bytes written without a failure) increments the downloaded counter and, if the
  allowance is tracked, decrements it by one; so in every run from \<open>bulkDownload\<close>, as long
  as no allowance check has been made, the tracked allowance is the initial one minus the
  number of downloads. An attempt that begins while the tracked allowance is at or below 0
  returns \<open>false\<close> before any request and leaves the allowance as it is: it emits
  \<open>dailyRateLimited\<close> with the sets still in the collection when a mirror of its list is not
  banned, and the error of an empty chain otherwise. Once the tracked allowance is at or
  below 0, nothing is requested for the rest of the run, and the allowance stays at or below
  0, until an allowance check is made. In particular, whatever the configuration, the
  collection and the order of the events: with tracked allowance \<open>k\<close> (5 in the claim), once
  \<open>k\<close> sets have been downloaded no further request is issued, as long as no allowance check
  is made.
\<close>

theorem C4_daily_allowance:
  "(fetched env = FetchResponse r \<and> status r = 200
      \<and> getFilename (decodeURIComponent env) r = Some fileName
      \<and> body r = Some chunks \<and> \<not> streamError env \<and> 1024 \<le> sum_list chunks \<longrightarrow>
      snd (downloadFile_respond cfg s att env)
      \<and> remainingDownloadsLimit (fst (downloadFile_respond cfg s att env))
          = map_option (\<lambda>n. n - 1) (remainingDownloadsLimit s)
      \<and> downloadedBeatMapSetSize (fst (downloadFile_respond cfg s att env))
          = downloadedBeatMapSetSize s + 1)
   \<and> (remainingDownloadsLimit s = Some n \<and> n \<le> 0 \<longrightarrow>
      snd (downloadFile_begin cfg s b opts benv) = None
      \<and> \<not> snd (downloadFile cfg s b opts benv env)
      \<and> requests (fst (downloadFile cfg s b opts benv env)) = requests s
      \<and> remainingDownloadsLimit (fst (downloadFile cfg s b opts benv env)) = Some n
      \<and> events (fst (downloadFile cfg s b opts benv env))
          = events s @ [if allMirrors cfg s opts = [] then Error b AllMirrorsBanned
                        else DailyRateLimited (beatMapSets s)])
   \<and> (run cfg (bulkDownload cfg (init cfg limit dir sets) entries) acts = Some s1
      \<and> checks s1 = [] \<longrightarrow>
      remainingDownloadsLimit s1
        = map_option
            (\<lambda>n. n - (int (downloadedBeatMapSetSize s1) - int (skippedBeatMapSetSize s1)))
            limit)
   \<and> (remainingDownloadsLimit s = Some n \<and> n \<le> 0
      \<and> run cfg s acts = Some s2 \<and> checks s2 = checks s \<longrightarrow>
      requests s2 = requests s \<and> (\<exists>m. remainingDownloadsLimit s2 = Some m \<and> m \<le> n))
   \<and> (run cfg (bulkDownload cfg (init cfg (Some k) dir sets) entries) acts = Some s1
      \<and> k \<le> int (downloadedBeatMapSetSize s1) - int (skippedBeatMapSetSize s1)
      \<and> run cfg s1 acts2 = Some s2 \<and> checks s2 = [] \<longrightarrow>
      requests s2 = requests s1)"
proof (intro conjI impI)
  assume a: "fetched env = FetchResponse r \<and> status r = 200
      \<and> getFilename (decodeURIComponent env) r = Some fileName
      \<and> body r = Some chunks \<and> \<not> streamError env \<and> 1024 \<le> sum_list chunks"
  then have e: "downloadFile_respond cfg s att env =
     (emit ((if isProbeRequest att
             then (rateLimitCheck s (currentMirror att) r)
                    \<lparr>concurrency := (if parallel cfg then cfg_concurrency cfg else 1)\<rparr>
             else rateLimitCheck s (currentMirror att) r)
            \<lparr>files := insert (path s, fileName) (files s),
              downloadedBeatMapSetSize := downloadedBeatMapSetSize s + 1,
              remainingDownloadsLimit := map_option (\<lambda>n. n - 1) (remainingDownloadsLimit s)\<rparr>)
        (Downloaded (item att)), True)"
    by (intro respond_success) blast+
  show "snd (downloadFile_respond cfg s att env)"
    and "remainingDownloadsLimit (fst (downloadFile_respond cfg s att env))
          = map_option (\<lambda>n. n - 1) (remainingDownloadsLimit s)"
    and "downloadedBeatMapSetSize (fst (downloadFile_respond cfg s att env))
          = downloadedBeatMapSetSize s + 1"
    by (simp_all add: e emit_def)
next
  assume "remainingDownloadsLimit s = Some n \<and> n \<le> 0"
  then have b: "downloadFile_begin cfg s b opts benv =
     (if allMirrors cfg s opts = [] then emit s (Error b AllMirrorsBanned)
      else emit (s\<lparr>testRequest := False\<rparr>) (DailyRateLimited (beatMapSets s)), None)"
    and n: "remainingDownloadsLimit s = Some n"
    using begin_exhausted [of s n cfg b opts benv] by simp_all
  show "snd (downloadFile_begin cfg s b opts benv) = None"
    and "\<not> snd (downloadFile cfg s b opts benv env)"
    and "requests (fst (downloadFile cfg s b opts benv env)) = requests s"
    and "remainingDownloadsLimit (fst (downloadFile cfg s b opts benv env)) = Some n"
    and "events (fst (downloadFile cfg s b opts benv env))
          = events s @ [if allMirrors cfg s opts = [] then Error b AllMirrorsBanned
                        else DailyRateLimited (beatMapSets s)]"
    by (simp_all add: downloadFile_def b n emit_def)
next
  assume "run cfg (bulkDownload cfg (init cfg limit dir sets) entries) acts = Some s1
      \<and> checks s1 = []"
  then have r: "run cfg (bulkDownload cfg (init cfg limit dir sets) entries) acts = Some s1"
    and c: "checks s1 = checks (bulkDownload cfg (init cfg limit dir sets) entries)"
    by (simp_all add: bulkDownload_counters)
  from run_allowance [OF r c]
  show "remainingDownloadsLimit s1
        = map_option
            (\<lambda>n. n - (int (downloadedBeatMapSetSize s1) - int (skippedBeatMapSetSize s1)))
            limit"
    by (simp add: bulkDownload_counters)
next
  assume h: "remainingDownloadsLimit s = Some n \<and> n \<le> 0
      \<and> run cfg s acts = Some s2 \<and> checks s2 = checks s"
  then have r: "run cfg s acts = Some s2" and c: "checks s2 = checks s"
    and l: "remainingDownloadsLimit s = Some n" and n: "n \<le> 0"
    by blast+
  from run_exhausted [OF r c l n] show "requests s2 = requests s" .
  from run_allowance [OF r c] l
  show "\<exists>m. remainingDownloadsLimit s2 = Some m \<and> m \<le> n"
    by simp
next
  assume h: "run cfg (bulkDownload cfg (init cfg (Some k) dir sets) entries) acts = Some s1
      \<and> k \<le> int (downloadedBeatMapSetSize s1) - int (skippedBeatMapSetSize s1)
      \<and> run cfg s1 acts2 = Some s2 \<and> checks s2 = []"
  then have r1: "run cfg (bulkDownload cfg (init cfg (Some k) dir sets) entries) acts = Some s1"
    and k: "k \<le> int (downloadedBeatMapSetSize s1) - int (skippedBeatMapSetSize s1)"
    and r2: "run cfg s1 acts2 = Some s2" and c2: "checks s2 = []"
    by blast+
  from run_checks_prefix [OF r2] c2 have c1: "checks s1 = []" by simp
  then have c: "checks s1 = checks (bulkDownload cfg (init cfg (Some k) dir sets) entries)"
    by (simp add: bulkDownload_counters)
  from run_allowance [OF r1 c]
  have l: "remainingDownloadsLimit s1
      = Some (k - (int (downloadedBeatMapSetSize s1) - int (skippedBeatMapSetSize s1)))"
    by (simp add: bulkDownload_counters)
  from c1 c2 have "checks s2 = checks s1" by simp
  from run_exhausted [OF r2 this l] k show "requests s2 = requests s1" by simp
qed

lemma parallel_fifth_simps:
  "run cfg_catboy (bulkDownload cfg_catboy (init cfg_catboy (Some 5) ''Songs''
       [1, 2, 3, 4, 5, 6, 7, 8]) None) (take 12 parallel_allowance_run) = Some parallel_fifth"
  "checks parallel_fifth = []" "downloadedBeatMapSetSize parallel_fifth = 5"
  "skippedBeatMapSetSize parallel_fifth = 0"
  "requests parallel_fifth
     = [(Catboy, 1), (Catboy, 2), (Catboy, 3), (Catboy, 4), (Catboy, 5), (Catboy, 6),
        (Catboy, 7)]"
  "map (item \<circ> snd) (inflight parallel_fifth) = [6, 7]" "tasks parallel_fifth = [BulkTask 8]"
  by (simp_all add: parallel_fifth_def parallel_allowance_run_def ok_response_def model_defs)

lemma parallel_rest_simps:
  "run cfg_catboy parallel_fifth (drop 12 parallel_allowance_run)
     = Some (the (run cfg_catboy parallel_fifth (drop 12 parallel_allowance_run)))"
  "checks (the (run cfg_catboy parallel_fifth (drop 12 parallel_allowance_run))) = []"
  "downloadedBeatMapSetSize (the (run cfg_catboy parallel_fifth (drop 12 parallel_allowance_run)))
     = 7"
  "drop 12 (events (the (run cfg_catboy parallel_fifth (drop 12 parallel_allowance_run))))
     = [DailyRateLimited [6, 7, 8], Downloaded 6, Downloaded 7, End [8]]"
  by (simp_all add: parallel_fifth_def parallel_allowance_run_def ok_response_def model_defs)

lemma sequential_fifth_simps:
  "run cfg_sequential (bulkDownload cfg_sequential (init cfg_sequential (Some 5) ''Songs''
       [1, 2, 3, 4, 5, 6, 7, 8]) None) (take 10 allowance_run) = Some sequential_fifth"
  "downloadedBeatMapSetSize sequential_fifth = 5" "skippedBeatMapSetSize sequential_fifth = 0"
  "requests sequential_fifth
     = [(Catboy, 1), (Catboy, 2), (Catboy, 3), (Catboy, 4), (Catboy, 5)]"
  "run cfg_sequential sequential_fifth (drop 10 allowance_run)
     = Some (the (run cfg_sequential sequential_fifth (drop 10 allowance_run)))"
  "checks (the (run cfg_sequential sequential_fifth (drop 10 allowance_run))) = []"
  "drop 10 (events (the (run cfg_sequential sequential_fifth (drop 10 allowance_run))))
     = [DailyRateLimited [6, 7, 8], DailyRateLimited [6, 7, 8], DailyRateLimited [6, 7, 8],
        End [6, 7, 8]]"
  "beatMapSets (the (run cfg_sequential sequential_fifth (drop 10 allowance_run))) = [6, 7, 8]"
  by (simp_all add: sequential_fifth_def allowance_run_def ok_response_def model_defs)

theorem C4_daily_allowance_witness:
  "snd (downloadFile_respond cfg_catboy (waiting_state\<lparr>remainingDownloadsLimit := Some 5\<rparr>)
          (first_attempt Catboy 1) ok_response)
   \<and> remainingDownloadsLimit
        (fst (downloadFile_respond cfg_catboy (waiting_state\<lparr>remainingDownloadsLimit := Some 5\<rparr>)
                (first_attempt Catboy 1) ok_response)) = Some 4
   \<and> remainingDownloadsLimit exhausted_state = Some 0
   \<and> \<not> snd (downloadFile cfg_catboy exhausted_state 7 None benv_ok ok_response)
   \<and> requests (fst (downloadFile cfg_catboy exhausted_state 7 None benv_ok ok_response)) = []
   \<and> events (fst (downloadFile cfg_catboy exhausted_state 7 None benv_ok ok_response))
       = [DailyRateLimited [7]]
   \<and> downloadedBeatMapSetSize parallel_fifth = 5
   \<and> remainingDownloadsLimit parallel_fifth = Some 0
   \<and> map (item \<circ> snd) (inflight parallel_fifth) = [6, 7]
   \<and> requests (the (run cfg_catboy parallel_fifth (drop 12 parallel_allowance_run)))
       = [(Catboy, 1), (Catboy, 2), (Catboy, 3), (Catboy, 4), (Catboy, 5), (Catboy, 6),
          (Catboy, 7)]
   \<and> remainingDownloadsLimit (the (run cfg_catboy parallel_fifth (drop 12 parallel_allowance_run)))
       = Some (- 2)
   \<and> drop 12 (events (the (run cfg_catboy parallel_fifth (drop 12 parallel_allowance_run))))
       = [DailyRateLimited [6, 7, 8], Downloaded 6, Downloaded 7, End [8]]
   \<and> downloadedBeatMapSetSize sequential_fifth = 5
   \<and> requests (the (run cfg_sequential sequential_fifth (drop 10 allowance_run)))
       = [(Catboy, 1), (Catboy, 2), (Catboy, 3), (Catboy, 4), (Catboy, 5)]
   \<and> drop 10 (events (the (run cfg_sequential sequential_fifth (drop 10 allowance_run))))
       = [DailyRateLimited [6, 7, 8], DailyRateLimited [6, 7, 8], DailyRateLimited [6, 7, 8],
          End [6, 7, 8]]
   \<and> beatMapSets (the (run cfg_sequential sequential_fifth (drop 10 allowance_run))) = [6, 7, 8]"
proof -
  let ?r = "\<lparr>status = 200, xRateLimitRemaining = None, contentDisposition = None,
             body = Some [2000]\<rparr>"
  let ?pfin = "the (run cfg_catboy parallel_fifth (drop 12 parallel_allowance_run))"
  let ?sfin = "the (run cfg_sequential sequential_fifth (drop 10 allowance_run))"
  note k1 = C4_daily_allowance [THEN conjunct1, rule_format]
  note k2 = C4_daily_allowance [THEN conjunct2, THEN conjunct1, rule_format]
  note k3 = C4_daily_allowance [THEN conjunct2, THEN conjunct2, THEN conjunct1, rule_format]
  note k4 = C4_daily_allowance [THEN conjunct2, THEN conjunct2, THEN conjunct2, THEN conjunct1,
      rule_format]
  note k5 = C4_daily_allowance [THEN conjunct2, THEN conjunct2, THEN conjunct2, THEN conjunct2,
      rule_format]
  txt \<open>One download, one exhausted start.\<close>
  have h: "fetched ok_response = FetchResponse ?r \<and> status ?r = 200
      \<and> getFilename (decodeURIComponent ok_response) ?r = Some ''Untitled.osz''
      \<and> body ?r = Some [2000] \<and> \<not> streamError ok_response \<and> 1024 \<le> sum_list [2000 :: nat]"
    by (simp add: ok_response_def response_def response_at_def getFilename_def)
  have x: "remainingDownloadsLimit exhausted_state = Some 0 \<and> (0 :: int) \<le> 0"
    by (simp add: exhausted_state_def model_defs)
  have c: "allMirrors cfg_catboy exhausted_state None \<noteq> []"
    by (simp add: exhausted_state_def model_defs)
  have v: "requests exhausted_state = []" "events exhausted_state = []"
    "beatMapSets exhausted_state = [7]"
    by (simp_all add: exhausted_state_def model_defs)
  from k1 [OF h, of cfg_catboy "waiting_state\<lparr>remainingDownloadsLimit := Some 5\<rparr>"
      "first_attempt Catboy 1"]
  have a: "snd (downloadFile_respond cfg_catboy (waiting_state\<lparr>remainingDownloadsLimit := Some 5\<rparr>)
          (first_attempt Catboy 1) ok_response)
   \<and> remainingDownloadsLimit
        (fst (downloadFile_respond cfg_catboy (waiting_state\<lparr>remainingDownloadsLimit := Some 5\<rparr>)
                (first_attempt Catboy 1) ok_response)) = Some 4"
    by simp
  from k2 [OF x, of cfg_catboy 7 None benv_ok ok_response] c
  have b: "\<not> snd (downloadFile cfg_catboy exhausted_state 7 None benv_ok ok_response)
   \<and> requests (fst (downloadFile cfg_catboy exhausted_state 7 None benv_ok ok_response)) = []
   \<and> events (fst (downloadFile cfg_catboy exhausted_state 7 None benv_ok ok_response))
       = [DailyRateLimited [7]]"
    by (simp add: v)
  txt \<open>Eight sets, three at a time.\<close>
  from k3 [of cfg_catboy "Some 5" "''Songs''" "[1, 2, 3, 4, 5, 6, 7, 8]" None
      "take 12 parallel_allowance_run" parallel_fifth] parallel_fifth_simps(1,2)
  have "remainingDownloadsLimit parallel_fifth
      = map_option (\<lambda>n. n - (int (downloadedBeatMapSetSize parallel_fifth)
                              - int (skippedBeatMapSetSize parallel_fifth))) (Some 5)"
    by blast
  then have p0: "remainingDownloadsLimit parallel_fifth = Some 0"
    by (simp add: parallel_fifth_simps(3,4))
  have "checks ?pfin = checks parallel_fifth"
    by (simp only: parallel_rest_simps(2) parallel_fifth_simps(2))
  with k4 [of parallel_fifth 0 cfg_catboy "drop 12 parallel_allowance_run" ?pfin]
    p0 parallel_rest_simps(1)
  have "requests ?pfin = requests parallel_fifth"
    by blast
  then have p1: "requests ?pfin
       = [(Catboy, 1), (Catboy, 2), (Catboy, 3), (Catboy, 4), (Catboy, 5), (Catboy, 6),
          (Catboy, 7)]"
    by (simp only: parallel_fifth_simps(5))
  have p2: "remainingDownloadsLimit ?pfin = Some (- 2)"
    by (simp add: parallel_fifth_def parallel_allowance_run_def ok_response_def model_defs)
  txt \<open>Eight sets, one at a time.\<close>
  have "(5 :: int) \<le> int (downloadedBeatMapSetSize sequential_fifth)
                        - int (skippedBeatMapSetSize sequential_fifth)"
    by (simp add: sequential_fifth_simps(2,3))
  with k5 [of cfg_sequential 5 "''Songs''" "[1, 2, 3, 4, 5, 6, 7, 8]" None
      "take 10 allowance_run" sequential_fifth "drop 10 allowance_run" ?sfin]
    sequential_fifth_simps(1,5,6)
  have "requests ?sfin = requests sequential_fifth"
    by blast
  then have q: "requests ?sfin
       = [(Catboy, 1), (Catboy, 2), (Catboy, 3), (Catboy, 4), (Catboy, 5)]"
    by (simp only: sequential_fifth_simps(4))
  from a x b parallel_fifth_simps(3,6) p0 p1 p2 parallel_rest_simps(4)
    sequential_fifth_simps(2,7,8) q
  show ?thesis by blast
qed

section \<open>The soft rate limit after a 429\<close>

lemma catchBlock_signal:
  "isPaused (fst (catchBlock s att e)) = isPaused s"
  "concurrency (fst (catchBlock s att e)) = concurrency s"
  by (simp_all add: catchBlock_simps)




































section \<open>The quota header\<close>





end
